theory Spec2Isabelle
  imports Main "HOL-Library.Word" "HOL-Library.Signed_Division"
begin

section \<open>Machine types of libotp.c\<close>

text \<open>
  The embedding follows \<^verbatim>\<open>daemons/ipa-slapi-plugins/libotp/libotp.c\<close> on an LP64
  platform: \<^verbatim>\<open>int\<close> and \<^verbatim>\<open>unsigned int\<close> are 32 bits wide, \<^verbatim>\<open>time_t\<close>, \<^verbatim>\<open>ssize_t\<close>,
  \<^verbatim>\<open>size_t\<close> and \<^verbatim>\<open>uint64_t\<close> are 64 bits wide. Signed values are words read with
  \<open>sint\<close>; arithmetic wraps around (signed overflow, which C leaves undefined, wraps
  too).
\<close>

type_synonym c_int = "32 word"
type_synonym c_uint = "32 word"
type_synonym uint32_t = "32 word"
type_synonym uint64_t = "64 word"
type_synonym ssize_t = "64 word"
type_synonym time_t = "64 word"

text \<open>C's \<^verbatim>\<open>/\<close> on two signed 64-bit operands: the quotient is truncated towards zero.\<close>

definition c_sdiv :: "64 word \<Rightarrow> 64 word \<Rightarrow> 64 word" where
  "c_sdiv a b = word_of_int (sint a sdiv sint b)"

text \<open>An \<^verbatim>\<open>int\<close> converted to \<^verbatim>\<open>size_t\<close> (sign extension), read as a length.\<close>

definition int_to_size :: "c_int \<Rightarrow> nat" where
  "int_to_size n = unat (scast n :: 64 word)"

section \<open>Tokens\<close>

text \<open>\<^verbatim>\<open>struct hotp_token\<close> of librfc.h: the key, the algorithm name and the code length.\<close>

record hotp_token =
  key :: "8 word list"
  algo :: string
  digits :: c_int

datatype otptoken_type = OTPTOKEN_NONE | OTPTOKEN_TOTP | OTPTOKEN_HOTP

text \<open>
  \<^verbatim>\<open>struct otptoken\<close>. The members of the anonymous union are separate fields here: the
  code reads and writes only the member that \<open>type\<close> selects. The plugin identity is an
  opaque handle and is left out.
\<close>

record otptoken =
  sdn :: string
  token :: hotp_token
  type :: otptoken_type
  totp_watermark :: uint64_t
  totp_step :: c_uint
  totp_offset :: c_int
  hotp_counter :: uint64_t

text \<open>
  The code generator \<^verbatim>\<open>hotp(token, counter, &out)\<close> of librfc.c is a parameter of the
  model: \<open>None\<close> stands for the return value \<^verbatim>\<open>false\<close>.
\<close>

type_synonym generator = "hotp_token \<Rightarrow> uint64_t \<Rightarrow> uint32_t option"

section \<open>The directory server\<close>

text \<open>
  Modelled from the spec: the directory server's replace-attribute operation, reached
  through \<^verbatim>\<open>slapi_modify_internal_pb\<close>, which is not part of this repository. The
  durable state is \<open>entries\<close>: the integer value stored under a record identity and an
  attribute name. \<open>faults\<close> lists the outcomes of the coming modify requests (\<open>True\<close>: the
  request is refused); once the list is used up every request is accepted. A refused
  request leaves \<open>entries\<close> as it is, an accepted one replaces the value.
\<close>

record directory =
  entries :: "string \<times> string \<rightharpoonup> c_int"
  faults :: "bool list"

definition slapi_modify_internal ::
  "directory \<Rightarrow> string \<Rightarrow> string \<Rightarrow> c_int \<Rightarrow> bool \<times> directory" where
  "slapi_modify_internal d dn attr v =
     (case faults d of
        [] \<Rightarrow> (True, d\<lparr>entries := (entries d)((dn, attr) \<mapsto> v)\<rparr>)
      | f # fs \<Rightarrow>
          if f then (False, d\<lparr>faults := fs\<rparr>)
          else (True, d\<lparr>entries := (entries d)((dn, attr) \<mapsto> v), faults := fs\<rparr>))"

text \<open>\<^verbatim>\<open>writeattr\<close>: one replace of \<open>attr\<close> on the token's record, with an \<^verbatim>\<open>int\<close> value.
  Its three failure exits (the value cannot be set, the request fails, the result is not
  \<^verbatim>\<open>LDAP_SUCCESS\<close>) are one refused request.\<close>

definition writeattr :: "directory \<Rightarrow> otptoken \<Rightarrow> string \<Rightarrow> c_int \<Rightarrow> bool \<times> directory" where
  "writeattr d tok attr v = slapi_modify_internal d (sdn tok) attr v"

section \<open>validate\<close>

text \<open>
  \<^verbatim>\<open>validate(token, now, step, first, second)\<close>. The result is the returned flag, the
  token after the call and the directory after the call. \<open>second = None\<close> is the
  \<^verbatim>\<open>NULL\<close> pointer (single-code mode).
\<close>

text \<open>"Calculate the absolute step": the attribute to write and the absolute step, or
  \<open>None\<close> where the code returns \<^verbatim>\<open>false\<close>.\<close>

definition absolute_step :: "otptoken \<Rightarrow> time_t \<Rightarrow> ssize_t \<Rightarrow> (string \<times> ssize_t) option" where
  "absolute_step tok now step =
     (case type tok of
        OTPTOKEN_TOTP \<Rightarrow>
          (let step' = c_sdiv (now + scast (totp_offset tok)) (ucast (totp_step tok)) + step
           in if 0 < totp_watermark tok \<and> step' < totp_watermark tok then None
              else Some (''ipaTokenTOTPwatermark'', step'))
      | OTPTOKEN_HOTP \<Rightarrow>
          if step <s 0 then None
          else Some (''ipaTokenHOTPcounter'', hotp_counter tok + step)
      | OTPTOKEN_NONE \<Rightarrow> None)"

text \<open>"Write the step value" and "Save our modifications to the object".\<close>

definition write_step ::
  "directory \<Rightarrow> otptoken \<Rightarrow> string \<Rightarrow> ssize_t \<Rightarrow> bool \<times> otptoken \<times> directory" where
  "write_step d tok attr step =
     (case writeattr d tok attr (ucast step) of
        (False, d') \<Rightarrow> (False, tok, d')
      | (True, d') \<Rightarrow>
          (True,
           (case type tok of
              OTPTOKEN_TOTP \<Rightarrow> tok\<lparr>totp_watermark := step\<rparr>
            | OTPTOKEN_HOTP \<Rightarrow> tok\<lparr>hotp_counter := step\<rparr>
            | OTPTOKEN_NONE \<Rightarrow> tok),
           d'))"

definition validate ::
  "generator \<Rightarrow> directory \<Rightarrow> otptoken \<Rightarrow> time_t \<Rightarrow> ssize_t \<Rightarrow> uint32_t \<Rightarrow> uint32_t option
     \<Rightarrow> bool \<times> otptoken \<times> directory" where
  "validate hotp d tok now step first second =
     (case absolute_step tok now step of
        None \<Rightarrow> (False, tok, d)
      | Some (attr, s) \<Rightarrow>
          (case hotp (token tok) s of
             None \<Rightarrow> (False, tok, d)
           | Some tmp \<Rightarrow>
               if first \<noteq> tmp then (False, tok, d)
               else
                 (case second of
                    None \<Rightarrow> write_step d tok attr (s + 1)
                  | Some c2 \<Rightarrow>
                      (case hotp (token tok) (s + 1) of
                         None \<Rightarrow> (False, tok, d)
                       | Some tmp2 \<Rightarrow>
                           if c2 \<noteq> tmp2 then (False, tok, d)
                           else
                             (case type tok of
                                OTPTOKEN_TOTP \<Rightarrow>
                                  (let off = ucast ((s + 2 - c_sdiv now (ucast (totp_step tok)))
                                                     * ucast (totp_step tok)) :: uint32_t
                                   in case writeattr d tok ''ipaTokenTOTPclockOffset'' off of
                                        (False, d') \<Rightarrow> (False, tok, d')
                                      | (True, d') \<Rightarrow> write_step d' tok attr (s + 2))
                              | _ \<Rightarrow> write_step d tok attr (s + 2))))))"

section \<open>Building tokens from directory entries\<close>

text \<open>\<^verbatim>\<open>strcasecmp(a, b) == 0\<close> of the C library, on ASCII letters.\<close>

definition tolower :: "char \<Rightarrow> char" where
  "tolower c = (if 65 \<le> (of_char c :: nat) \<and> (of_char c :: nat) \<le> 90
                then char_of (of_char c + 32 :: nat) else c)"

definition strcasecmp_eq :: "string \<Rightarrow> string \<Rightarrow> bool" where
  "strcasecmp_eq a b = (map tolower a = map tolower b)"

definition valid_algos :: "string list" where
  "valid_algos = [''sha1'', ''sha256'', ''sha384'', ''sha512'']"

fun is_algo_valid_loop :: "string \<Rightarrow> string list \<Rightarrow> bool" where
  "is_algo_valid_loop a [] = False"
| "is_algo_valid_loop a (v # vs) = (if strcasecmp_eq a v then True else is_algo_valid_loop a vs)"

definition is_algo_valid :: "string \<Rightarrow> bool" where
  "is_algo_valid a = is_algo_valid_loop a valid_algos"

text \<open>
  A directory entry as \<^verbatim>\<open>otptoken_new\<close> reads it through the slapi accessors:
  \<^verbatim>\<open>slapi_entry_attr_get_charray\<close>, \<^verbatim>\<open>slapi_entry_get_sdn\<close>, \<^verbatim>\<open>entry_attr_get_berval\<close>
  and \<^verbatim>\<open>slapi_entry_attr_get_charptr\<close> give \<^verbatim>\<open>NULL\<close> (\<open>None\<close>) for an absent attribute,
  \<^verbatim>\<open>slapi_entry_attr_get_int\<close> and \<^verbatim>\<open>slapi_entry_attr_get_uint\<close> give 0.
\<close>

record Slapi_Entry =
  objectClass :: "string list option"
  entry_sdn :: "string option"
  ipaTokenOTPkey :: "8 word list option"
  ipaTokenOTPdigits :: c_int
  ipaTokenOTPalgorithm :: "string option"
  ipaTokenTOTPclockOffset :: c_int
  ipaTokenTOTPwatermark :: c_int
  ipaTokenTOTPtimeStep :: c_uint
  ipaTokenHOTPcounter :: c_int

text \<open>"Get the token type": the loop over the object classes; the last marker wins.\<close>

fun token_type_loop :: "string list \<Rightarrow> otptoken_type \<Rightarrow> otptoken_type" where
  "token_type_loop [] t = t"
| "token_type_loop (v # vs) t =
     token_type_loop vs
       (if strcasecmp_eq v ''ipaTokenTOTP'' then OTPTOKEN_TOTP
        else if strcasecmp_eq v ''ipaTokenHOTP'' then OTPTOKEN_HOTP
        else t)"

text \<open>\<^verbatim>\<open>otptoken_new\<close>; \<open>None\<close> is the \<^verbatim>\<open>NULL\<close> returned through the \<^verbatim>\<open>error\<close> label.
  Members of the union that the token type does not select stay zero.\<close>

definition otptoken_new :: "Slapi_Entry \<Rightarrow> otptoken option" where
  "otptoken_new entry =
     (case objectClass entry of
        None \<Rightarrow> None
      | Some vals \<Rightarrow>
          (let ty = token_type_loop vals OTPTOKEN_NONE in
           if ty = OTPTOKEN_NONE then None
           else
             (case entry_sdn entry of
                None \<Rightarrow> None
              | Some dn \<Rightarrow>
                  (case ipaTokenOTPkey entry of
                     None \<Rightarrow> None
                   | Some k \<Rightarrow>
                       if ipaTokenOTPdigits entry \<noteq> 6 \<and> ipaTokenOTPdigits entry \<noteq> 8 then None
                       else
                         (let a = (case ipaTokenOTPalgorithm entry of
                                     None \<Rightarrow> ''sha1'' | Some a' \<Rightarrow> a')
                          in if \<not> is_algo_valid a then None
                             else
                               (let t = \<lparr>sdn = dn,
                                         token = \<lparr>key = k, algo = a,
                                                  digits = ipaTokenOTPdigits entry\<rparr>,
                                         type = ty, totp_watermark = 0, totp_step = 0,
                                         totp_offset = 0, hotp_counter = 0\<rparr>
                                in Some
                                  (case ty of
                                     OTPTOKEN_TOTP \<Rightarrow>
                                       t\<lparr>totp_offset := ipaTokenTOTPclockOffset entry,
                                         totp_watermark := scast (ipaTokenTOTPwatermark entry),
                                         totp_step :=
                                           (if ipaTokenTOTPtimeStep entry = 0 then 30
                                            else ipaTokenTOTPtimeStep entry)\<rparr>
                                   | OTPTOKEN_HOTP \<Rightarrow>
                                       t\<lparr>hotp_counter := scast (ipaTokenHOTPcounter entry)\<rparr>
                                   | OTPTOKEN_NONE \<Rightarrow> t)))))))"

text \<open>"Create the array": the loop of \<^verbatim>\<open>find\<close> over the entries that the search returned.
  The first entry that \<^verbatim>\<open>otptoken_new\<close> rejects frees the array and ends the lookup with
  \<^verbatim>\<open>NULL\<close>.\<close>

fun find_loop :: "Slapi_Entry list \<Rightarrow> otptoken list \<Rightarrow> otptoken list option" where
  "find_loop [] tokens = Some tokens"
| "find_loop (e # es) tokens =
     (case otptoken_new e of
        None \<Rightarrow> None
      | Some t \<Rightarrow> find_loop es (tokens @ [t]))"

text \<open>
  \<^verbatim>\<open>find\<close> (named \<open>find_tokens\<close> here), after the search has been issued. \<open>token_dn\<close> is the argument of that name,
  \<open>basedn\<close> the suffix that \<^verbatim>\<open>get_basedn\<close> resolves for the user (\<open>None\<close>: no suffix),
  \<open>result\<close> and \<open>found\<close> are what the server reports for the internal search: the LDAP
  result code and the entries (\<open>None\<close>: a \<^verbatim>\<open>NULL\<close> entry array).
\<close>

definition LDAP_SUCCESS :: c_int where
  "LDAP_SUCCESS = 0"

definition find_tokens ::
  "string option \<Rightarrow> string option \<Rightarrow> c_int \<Rightarrow> Slapi_Entry list option \<Rightarrow> otptoken list option" where
  "find_tokens token_dn basedn result found =
     (if token_dn = None \<and> basedn = None then None
      else if result \<noteq> LDAP_SUCCESS then None
      else
        (case found of
           None \<Rightarrow> None
         | Some es \<Rightarrow> find_loop es []))"

section \<open>Single-code validation\<close>

text \<open>
  The loop of \<^verbatim>\<open>otptoken_validate\<close>, \<^verbatim>\<open>for (int i = 0; i <= steps; i++)\<close>. The counter
  \<open>i\<close> is a natural number; it stands for the C \<^verbatim>\<open>int\<close> as long as \<open>steps < 2 ^ 31\<close>
  (beyond that \<^verbatim>\<open>i++\<close> overflows).
\<close>

function otptoken_validate_loop ::
  "generator \<Rightarrow> time_t \<Rightarrow> nat \<Rightarrow> uint32_t \<Rightarrow> nat \<Rightarrow> otptoken \<Rightarrow> directory
     \<Rightarrow> bool \<times> otptoken \<times> directory" where
  "otptoken_validate_loop hotp now steps code i tok d =
     (if i \<le> steps then
        (let (ok, tok1, d1) = validate hotp d tok now (of_nat i) code None in
         if ok then (True, tok1, d1)
         else
           (let (ok', tok2, d2) = validate hotp d1 tok1 now (0 - of_nat i) code None in
            if ok' then (True, tok2, d2)
            else otptoken_validate_loop hotp now steps code (Suc i) tok2 d2))
      else (False, tok, d))"
  by pat_completeness auto
termination
  by (relation "measure (\<lambda>(hotp, now, steps, code, i, tok, d). Suc steps - i)") auto

declare otptoken_validate_loop.simps [simp del]

text \<open>
  \<^verbatim>\<open>otptoken_validate\<close>. \<open>clock\<close> is what \<^verbatim>\<open>time()\<close> returns when it is called
  (\<open>- 1\<close> on failure); \<open>None\<close> is the \<^verbatim>\<open>NULL\<close> token.
\<close>

definition otptoken_validate ::
  "generator \<Rightarrow> time_t \<Rightarrow> directory \<Rightarrow> otptoken option \<Rightarrow> nat \<Rightarrow> uint32_t
     \<Rightarrow> bool \<times> otptoken option \<times> directory" where
  "otptoken_validate hotp clock d tokp steps code =
     (case tokp of
        None \<Rightarrow> (False, None, d)
      | Some tok \<Rightarrow>
          if type tok = OTPTOKEN_TOTP \<and> clock = - 1 then (False, Some tok, d)
          else
            (let now = (if type tok = OTPTOKEN_TOTP then clock else 0);
                 (ok, tok', d') = otptoken_validate_loop hotp now steps code 0 tok d
             in (ok, Some tok', d')))"

section \<open>Decoding a presented code\<close>

text \<open>\<^verbatim>\<open>bvtod\<close>: the loop over the characters of the berval, with \<^verbatim>\<open>*out\<close> as accumulator.\<close>

fun bvtod_loop :: "string \<Rightarrow> uint32_t \<Rightarrow> uint32_t option" where
  "bvtod_loop [] out = Some out"
| "bvtod_loop (c # cs) out =
     (if of_char c < (48 :: nat) \<or> of_char c > (57 :: nat) then None
      else bvtod_loop cs (out * 10 + of_nat (of_char c - 48)))"

definition bvtod :: "string \<Rightarrow> uint32_t option" where
  "bvtod code = (case bvtod_loop code 0 of
                   None \<Rightarrow> None
                 | Some out \<Rightarrow> if length code \<noteq> 0 then Some out else None)"

text \<open>\<^verbatim>\<open>otptoken_validate_berval\<close>; \<open>None\<close> for a \<^verbatim>\<open>NULL\<close> token or berval.\<close>

definition otptoken_validate_berval ::
  "generator \<Rightarrow> time_t \<Rightarrow> directory \<Rightarrow> otptoken option \<Rightarrow> nat \<Rightarrow> string option \<Rightarrow> bool
     \<Rightarrow> bool \<times> otptoken option \<times> directory" where
  "otptoken_validate_berval hotp clock d tokp steps code tail =
     (case (tokp, code) of
        (Some tok, Some bv) \<Rightarrow>
          if length bv < int_to_size (digits (token tok)) then (False, tokp, d)
          else
            (let val = (if tail then drop (length bv - int_to_size (digits (token tok))) bv
                        else bv);
                 tmp = take (int_to_size (digits (token tok))) val
             in case bvtod tmp of
                  None \<Rightarrow> (False, tokp, d)
                | Some otp \<Rightarrow> otptoken_validate hotp clock d tokp steps otp)
      | _ \<Rightarrow> (False, tokp, d))"

section \<open>Two-code synchronization\<close>

text \<open>The inner loop of \<^verbatim>\<open>otptoken_sync\<close> over the token array, at drift radius \<open>i\<close>.
  The array is a list, the index \<open>j\<close> a natural number; the token that \<^verbatim>\<open>validate\<close> may
  have changed is put back at its index.\<close>

function otptoken_sync_tokens ::
  "generator \<Rightarrow> time_t \<Rightarrow> nat \<Rightarrow> uint32_t \<Rightarrow> uint32_t \<Rightarrow> nat \<Rightarrow> otptoken list \<Rightarrow> directory
     \<Rightarrow> bool \<times> otptoken list \<times> directory" where
  "otptoken_sync_tokens hotp now i first_code second_code j tokens d =
     (if j < length tokens then
        (let (ok, tok1, d1) = validate hotp d (tokens ! j) now (of_nat i) first_code
                                (Some second_code) in
         if ok then (True, tokens[j := tok1], d1)
         else
           (let (ok', tok2, d2) = validate hotp d1 tok1 now (0 - of_nat i) first_code
                                    (Some second_code) in
            if ok' then (True, tokens[j := tok2], d2)
            else otptoken_sync_tokens hotp now i first_code second_code (Suc j)
                   (tokens[j := tok2]) d2))
      else (False, tokens, d))"
  by pat_completeness auto
termination
  by (relation "measure (\<lambda>(hotp, now, i, c1, c2, j, tokens, d). length tokens - j)") auto

declare otptoken_sync_tokens.simps [simp del]

text \<open>The outer loop of \<^verbatim>\<open>otptoken_sync\<close> over the drift radius.\<close>

function otptoken_sync_loop ::
  "generator \<Rightarrow> time_t \<Rightarrow> nat \<Rightarrow> uint32_t \<Rightarrow> uint32_t \<Rightarrow> nat \<Rightarrow> otptoken list \<Rightarrow> directory
     \<Rightarrow> bool \<times> otptoken list \<times> directory" where
  "otptoken_sync_loop hotp now steps first_code second_code i tokens d =
     (if i \<le> steps then
        (let (ok, tokens', d') = otptoken_sync_tokens hotp now i first_code second_code 0 tokens d in
         if ok then (True, tokens', d')
         else otptoken_sync_loop hotp now steps first_code second_code (Suc i) tokens' d')
      else (False, tokens, d))"
  by pat_completeness auto
termination
  by (relation "measure (\<lambda>(hotp, now, steps, c1, c2, i, tokens, d). Suc steps - i)") auto

declare otptoken_sync_loop.simps [simp del]

definition otptoken_sync ::
  "generator \<Rightarrow> time_t \<Rightarrow> directory \<Rightarrow> otptoken list option \<Rightarrow> nat \<Rightarrow> uint32_t \<Rightarrow> uint32_t
     \<Rightarrow> bool \<times> otptoken list option \<times> directory" where
  "otptoken_sync hotp clock d tokensp steps first_code second_code =
     (case tokensp of
        None \<Rightarrow> (False, None, d)
      | Some tokens \<Rightarrow>
          if clock = - 1 then (False, Some tokens, d)
          else
            (let (ok, tokens', d') =
                   otptoken_sync_loop hotp clock steps first_code second_code 0 tokens d
             in (ok, Some tokens', d')))"

definition otptoken_sync_berval ::
  "generator \<Rightarrow> time_t \<Rightarrow> directory \<Rightarrow> otptoken list option \<Rightarrow> nat \<Rightarrow> string \<Rightarrow> string
     \<Rightarrow> bool \<times> otptoken list option \<times> directory" where
  "otptoken_sync_berval hotp clock d tokensp steps first_code second_code =
     (case bvtod first_code of
        None \<Rightarrow> (False, tokensp, d)
      | Some first \<Rightarrow>
          (case bvtod second_code of
             None \<Rightarrow> (False, tokensp, d)
           | Some second \<Rightarrow> otptoken_sync hotp clock d tokensp steps first second))"

section \<open>Notions of the specification\<close>

text \<open>A decimal digit, a non-empty string of digits, and the number such a string denotes
  (read in base ten; leading zeros count for nothing).\<close>

definition is_digit :: "char \<Rightarrow> bool" where
  "is_digit c = (48 \<le> (of_char c :: nat) \<and> (of_char c :: nat) \<le> 57)"

definition numeric :: "string \<Rightarrow> bool" where
  "numeric s = (s \<noteq> [] \<and> list_all is_digit s)"

definition decimal_value :: "string \<Rightarrow> nat" where
  "decimal_value s = foldl (\<lambda>n c. 10 * n + (of_char c - 48)) 0 s"

text \<open>
  The baseline step of a token at a reference instant, its replay cursor and the
  attribute that holds it, and the backward-motion guard of a candidate offset
  (section 4.2 of the specification).
\<close>

definition baseline :: "otptoken \<Rightarrow> time_t \<Rightarrow> uint64_t" where
  "baseline tok now =
     (case type tok of
        OTPTOKEN_TOTP \<Rightarrow> c_sdiv (now + scast (totp_offset tok)) (ucast (totp_step tok))
      | OTPTOKEN_HOTP \<Rightarrow> hotp_counter tok
      | OTPTOKEN_NONE \<Rightarrow> 0)"

definition cursor :: "otptoken \<Rightarrow> uint64_t" where
  "cursor tok =
     (case type tok of
        OTPTOKEN_TOTP \<Rightarrow> totp_watermark tok
      | OTPTOKEN_HOTP \<Rightarrow> hotp_counter tok
      | OTPTOKEN_NONE \<Rightarrow> 0)"

definition cursor_attr :: "otptoken \<Rightarrow> string" where
  "cursor_attr tok =
     (case type tok of
        OTPTOKEN_TOTP \<Rightarrow> ''ipaTokenTOTPwatermark''
      | OTPTOKEN_HOTP \<Rightarrow> ''ipaTokenHOTPcounter''
      | OTPTOKEN_NONE \<Rightarrow> [])"

definition set_cursor :: "otptoken \<Rightarrow> uint64_t \<Rightarrow> otptoken" where
  "set_cursor tok s =
     (case type tok of
        OTPTOKEN_TOTP \<Rightarrow> tok\<lparr>totp_watermark := s\<rparr>
      | OTPTOKEN_HOTP \<Rightarrow> tok\<lparr>hotp_counter := s\<rparr>
      | OTPTOKEN_NONE \<Rightarrow> tok)"

definition guard :: "otptoken \<Rightarrow> time_t \<Rightarrow> ssize_t \<Rightarrow> bool" where
  "guard tok now step =
     (case type tok of
        OTPTOKEN_TOTP \<Rightarrow> totp_watermark tok = 0 \<or> totp_watermark tok \<le> baseline tok now + step
      | OTPTOKEN_HOTP \<Rightarrow> 0 \<le>s step
      | OTPTOKEN_NONE \<Rightarrow> False)"

text \<open>The clock offset that a resynchronization ending at cursor \<open>s2\<close> writes, as the
  32-bit value handed to \<^verbatim>\<open>writeattr\<close>.\<close>

definition clock_offset :: "otptoken \<Rightarrow> time_t \<Rightarrow> uint64_t \<Rightarrow> uint32_t" where
  "clock_offset tok now s2 =
     ucast ((s2 - c_sdiv now (ucast (totp_step tok))) * ucast (totp_step tok))"

text \<open>The state committer seen from outside: whether the server accepts the next
  request, the directory after an accepted replace and after a refused one.\<close>

definition accepted :: "directory \<Rightarrow> bool" where
  "accepted d = (case faults d of [] \<Rightarrow> True | f # fs \<Rightarrow> \<not> f)"

definition stored :: "directory \<Rightarrow> string \<Rightarrow> string \<Rightarrow> c_int \<Rightarrow> directory" where
  "stored d dn attr v = d\<lparr>entries := (entries d)((dn, attr) \<mapsto> v), faults := tl (faults d)\<rparr>"

definition refused :: "directory \<Rightarrow> directory" where
  "refused d = d\<lparr>faults := tl (faults d)\<rparr>"

text \<open>
  The search order of section 4.2: the candidate offsets \<open>+0, -0, +1, -1, \<dots>, +steps,
  -steps\<close>, and the sweep that tries them in this order and stops at the first one that
  \<^verbatim>\<open>validate\<close> accepts.
\<close>

definition candidate_offsets :: "nat \<Rightarrow> ssize_t list" where
  "candidate_offsets steps = concat (map (\<lambda>i. [of_nat i, 0 - of_nat i]) [0..<Suc steps])"

fun first_match ::
  "generator \<Rightarrow> time_t \<Rightarrow> uint32_t \<Rightarrow> ssize_t list \<Rightarrow> otptoken \<Rightarrow> directory
     \<Rightarrow> bool \<times> otptoken \<times> directory" where
  "first_match hotp now code [] tok d = (False, tok, d)"
| "first_match hotp now code (off # offs) tok d =
     (let (ok, tok', d') = validate hotp d tok now off code None in
      if ok then (True, tok', d') else first_match hotp now code offs tok' d')"

text \<open>
  The search order of section 4.5: for each radius the tokens in their given order, each
  at \<open>+i\<close> then \<open>-i\<close>; and the sweep over these attempts.
\<close>

definition sync_attempts :: "nat \<Rightarrow> nat \<Rightarrow> (nat \<times> ssize_t) list" where
  "sync_attempts steps n =
     concat (map (\<lambda>i. concat (map (\<lambda>j. [(j, of_nat i), (j, 0 - of_nat i)]) [0..<n]))
               [0..<Suc steps])"

fun first_sync ::
  "generator \<Rightarrow> time_t \<Rightarrow> uint32_t \<Rightarrow> uint32_t \<Rightarrow> (nat \<times> ssize_t) list \<Rightarrow> otptoken list
     \<Rightarrow> directory \<Rightarrow> bool \<times> otptoken list \<times> directory" where
  "first_sync hotp now c1 c2 [] tokens d = (False, tokens, d)"
| "first_sync hotp now c1 c2 ((j, off) # as) tokens d =
     (let (ok, tok', d') = validate hotp d (tokens ! j) now off c1 (Some c2) in
      if ok then (True, tokens[j := tok'], d')
      else first_sync hotp now c1 c2 as (tokens[j := tok']) d')"

text \<open>A candidate offset passes when the guard lets it through and the code generated at
  its step is the presented one; an attempt of the synchronizer passes when, in addition,
  the code generated at the next step is the second presented one.\<close>

definition passes :: "generator \<Rightarrow> otptoken \<Rightarrow> time_t \<Rightarrow> uint32_t \<Rightarrow> ssize_t \<Rightarrow> bool" where
  "passes hotp tok now code off =
     (guard tok now off \<and> hotp (token tok) (baseline tok now + off) = Some code)"

definition sync_passes ::
  "generator \<Rightarrow> time_t \<Rightarrow> uint32_t \<Rightarrow> uint32_t \<Rightarrow> otptoken list \<Rightarrow> nat \<times> ssize_t \<Rightarrow> bool" where
  "sync_passes hotp now c1 c2 tokens a =
     (case a of (j, off) \<Rightarrow>
        guard (tokens ! j) now off
        \<and> hotp (token (tokens ! j)) (baseline (tokens ! j) now + off) = Some c1
        \<and> hotp (token (tokens ! j)) (baseline (tokens ! j) now + off + 1) = Some c2)"

section \<open>Example data\<close>

text \<open>A generator whose code at step \<open>c\<close> is \<open>c\<close> plus 100000 times the length of the
  key; three tokens; an empty directory whose server accepts every request; and, further
  down, two directory entries: one that builds the first HOTP token and one with an
  unsupported code length.\<close>

definition example_hotp :: generator where
  "example_hotp tk c = Some (ucast c + 100000 * of_nat (length (key tk)))"

text \<open>A generator whose code is 777 at step 100 and 7 at every other step.\<close>

definition example_single_hotp :: generator where
  "example_single_hotp tk c = Some (if c = 100 then 777 else 7)"

definition example_hotp_token :: otptoken where
  "example_hotp_token =
     \<lparr>sdn = ''cn=h'', token = \<lparr>key = [1, 2, 3], algo = ''sha1'', digits = 6\<rparr>,
      type = OTPTOKEN_HOTP, totp_watermark = 0, totp_step = 0, totp_offset = 0,
      hotp_counter = 5\<rparr>"

definition example_totp_token :: otptoken where
  "example_totp_token =
     \<lparr>sdn = ''cn=t'', token = \<lparr>key = [4, 5, 6], algo = ''sha256'', digits = 6\<rparr>,
      type = OTPTOKEN_TOTP, totp_watermark = 0, totp_step = 30, totp_offset = 0,
      hotp_counter = 0\<rparr>"


definition empty_directory :: directory where
  "empty_directory = \<lparr>entries = Map.empty, faults = []\<rparr>"

text \<open>A directory that holds the record of the TOTP token and whose server accepts the
  next request and refuses the one after.\<close>

definition example_totp_directory :: directory where
  "example_totp_directory =
     \<lparr>entries = [(''cn=t'', ''ipaTokenTOTPclockOffset'') \<mapsto> 0,
                 (''cn=t'', ''ipaTokenTOTPwatermark'') \<mapsto> 0],
      faults = [False, True]\<rparr>"

definition example_entry :: Slapi_Entry where
  "example_entry =
     \<lparr>objectClass = Some [''top'', ''ipaToken'', ''ipatokenhotp''], entry_sdn = Some ''cn=h'',
      ipaTokenOTPkey = Some [1, 2, 3], ipaTokenOTPdigits = 6, ipaTokenOTPalgorithm = None,
      ipaTokenTOTPclockOffset = 0, ipaTokenTOTPwatermark = 0, ipaTokenTOTPtimeStep = 0,
      ipaTokenHOTPcounter = 5\<rparr>"

definition example_bad_entry :: Slapi_Entry where
  "example_bad_entry = example_entry\<lparr>ipaTokenOTPdigits := 7\<rparr>"

section \<open>The code decoder\<close>

lemma bvtod_loop_digits:
  "list_all is_digit s \<Longrightarrow>
   bvtod_loop s (of_nat n) = Some (of_nat (foldl (\<lambda>n c. 10 * n + (of_char c - 48)) n s))"
proof (induction s arbitrary: n)
  case Nil
  then show ?case by simp
next
  case (Cons c cs)
  have "bvtod_loop cs (of_nat (10 * n + (of_char c - 48))) =
        Some (of_nat (foldl (\<lambda>n c. 10 * n + (of_char c - 48)) (10 * n + (of_char c - 48)) cs))"
    using Cons.prems by (intro Cons.IH) simp
  then show ?case
    using Cons.prems by (simp add: is_digit_def not_less not_le mult.commute)
qed

lemma bvtod_loop_nondigit:
  "\<not> list_all is_digit s \<Longrightarrow> bvtod_loop s out = None"
  by (induction s arbitrary: out) (auto simp: is_digit_def)

lemma bvtod_eq:
  "bvtod s = (if numeric s then Some (of_nat (decimal_value s)) else None)"
  using bvtod_loop_digits [of s 0] bvtod_loop_nondigit [of s 0]
  by (auto simp: bvtod_def decimal_value_def numeric_def)

section \<open>One call of validate\<close>

lemma writeattr_eq:
  "writeattr d tok a v =
     (if accepted d then (True, stored d (sdn tok) a v) else (False, refused d))"
  by (cases "faults d")
     (auto simp: writeattr_def slapi_modify_internal_def accepted_def stored_def refused_def)

lemma absolute_step_eq:
  "absolute_step tok now step =
     (if guard tok now step then Some (cursor_attr tok, baseline tok now + step) else None)"
  by (cases "type tok")
     (auto simp: absolute_step_def guard_def cursor_attr_def baseline_def Let_def
                 word_sle_eq word_sless_alt not_less word_neq_0_conv)

lemma write_step_eq:
  "write_step d tok a s =
     (if accepted d then (True, set_cursor tok s, stored d (sdn tok) a (ucast s))
      else (False, tok, refused d))"
  by (simp add: write_step_def writeattr_eq set_cursor_def)

lemma validate_single_eq:
  "validate hotp d tok now step first None =
     (if guard tok now step \<and> hotp (token tok) (baseline tok now + step) = Some first
      then if accepted d
           then (True, set_cursor tok (baseline tok now + step + 1),
                 stored d (sdn tok) (cursor_attr tok) (ucast (baseline tok now + step + 1)))
           else (False, tok, refused d)
      else (False, tok, d))"
  by (auto simp: validate_def absolute_step_eq write_step_eq split: option.splits)

lemma validate_sync_eq:
  "validate hotp d tok now step first (Some c2) =
     (let s = baseline tok now + step in
      if guard tok now step \<and> hotp (token tok) s = Some first
           \<and> hotp (token tok) (s + 1) = Some c2
      then
        if type tok = OTPTOKEN_TOTP then
          if accepted d then
            if accepted (stored d (sdn tok) ''ipaTokenTOTPclockOffset''
                           (clock_offset tok now (s + 2)))
            then (True, set_cursor tok (s + 2),
                  stored (stored d (sdn tok) ''ipaTokenTOTPclockOffset''
                            (clock_offset tok now (s + 2)))
                     (sdn tok) (cursor_attr tok) (ucast (s + 2)))
            else (False, tok,
                  refused (stored d (sdn tok) ''ipaTokenTOTPclockOffset''
                             (clock_offset tok now (s + 2))))
          else (False, tok, refused d)
        else if accepted d
          then (True, set_cursor tok (s + 2),
                stored d (sdn tok) (cursor_attr tok) (ucast (s + 2)))
          else (False, tok, refused d)
      else (False, tok, d))"
  by (cases "type tok")
     (auto simp: validate_def absolute_step_eq write_step_eq writeattr_eq Let_def
                 clock_offset_def guard_def
           split: option.splits)

section \<open>Stored values read as integers\<close>

lemma sint_ucast_32_64: "sint (ucast (w :: 32 word) :: 64 word) = uint w"
proof -
  have "uint w < 2 ^ 32" using uint_bounded [of w] by simp
  then have b: "uint w < 2 ^ 63" by simp
  have "(0 :: int) \<le> 2 ^ 63" by simp
  then have c: "- (2 ^ 63) \<le> uint w"
    using uint_nonnegative [of w] by linarith
  have "sint (ucast w :: 64 word) = signed_take_bit 63 (uint w)"
    by (simp add: signed_ucast_eq)
  also have "\<dots> = uint w"
    using c b by (rule signed_take_bit_int_eq_self)
  finally show ?thesis .
qed

lemma ucast_64_32_of_int: "(ucast (word_of_int x :: 64 word) :: 32 word) = word_of_int x"
  by (rule ucast_down_wi) (simp add: is_down)

lemma sint_of_int_32:
  assumes "- (2 ^ 31) \<le> x" "x < 2 ^ 31"
  shows "sint (word_of_int x :: 32 word) = x"
proof -
  have "sint (word_of_int x :: 32 word) = signed_take_bit 31 x"
    by (simp add: sint_sbintrunc')
  also have "\<dots> = x" using assms by (rule signed_take_bit_int_eq_self)
  finally show ?thesis .
qed

lemma clock_offset_int:
  assumes n: "0 \<le> sint now" and t: "totp_step tok \<noteq> 0"
    and lo: "- (2 ^ 31) \<le> (sint s2 - sint now div uint (totp_step tok)) * uint (totp_step tok)"
    and hi: "(sint s2 - sint now div uint (totp_step tok)) * uint (totp_step tok) < 2 ^ 31"
  shows "sint (clock_offset tok now s2) =
           (sint s2 - sint now div uint (totp_step tok)) * uint (totp_step tok)"
proof -
  let ?T = "uint (totp_step tok)"
  let ?V = "(sint s2 - sint now div ?T) * ?T"
  have "?T \<noteq> 0" using t by (simp add: uint_0_iff)
  then have Tpos: "0 < ?T" using uint_nonnegative [of "totp_step tok"] by linarith
  have q: "sint now sdiv ?T = sint now div ?T"
    using n Tpos by (simp add: signed_divide_int_def sgn_if)
  have d: "c_sdiv now (ucast (totp_step tok)) = word_of_int (sint now div ?T)"
    by (simp add: c_sdiv_def sint_ucast_32_64 q)
  have e2: "(ucast (totp_step tok) :: 64 word) = word_of_int ?T" by (rule ucast_eq)
  have e1: "word_of_int (sint s2) = s2" by simp
  have "(s2 - c_sdiv now (ucast (totp_step tok))) * ucast (totp_step tok) =
          (word_of_int (sint s2) - word_of_int (sint now div ?T)) * (word_of_int ?T :: 64 word)"
    unfolding d e1 by (simp only: e2)
  also have "\<dots> = (word_of_int ?V :: 64 word)"
    by (simp only: of_int_diff of_int_mult)
  finally have "clock_offset tok now s2 = (word_of_int ?V :: 32 word)"
    by (simp only: clock_offset_def ucast_64_32_of_int)
  then show ?thesis
    using lo hi by (simp only: sint_of_int_32)
qed

lemma cursor_int:
  assumes "- (2 ^ 31) \<le> sint (s :: 64 word)" "sint s < 2 ^ 31"
  shows "sint (ucast s :: 32 word) = sint s"
proof -
  have "s = word_of_int (sint s)" by simp
  then have "(ucast s :: 32 word) = ucast (word_of_int (sint s) :: 64 word)" by simp
  then have "(ucast s :: 32 word) = word_of_int (sint s)"
    by (simp only: ucast_64_32_of_int)
  then show ?thesis using assms by (simp only: sint_of_int_32)
qed

lemma sint_nonneg_uint:
  assumes "0 \<le> sint (w :: 64 word)"
  shows "sint w = uint w"
proof -
  have s: "sint w = (uint w + 2 ^ 63) mod 2 ^ 64 - 2 ^ 63"
    using int_word_sint [where 'a = 64, of "uint w"] by simp
  have b: "0 \<le> uint w" "uint w < 2 ^ 64"
    using uint_bounded [of w] by simp_all
  show ?thesis
  proof (cases "uint w < 2 ^ 63")
    case True
    then have "(uint w + 2 ^ 63) mod 2 ^ 64 = uint w + 2 ^ 63"
      using b by (intro mod_pos_pos_trivial) simp_all
    then show ?thesis using s by simp
  next
    case False
    have "uint w + 2 ^ 63 = uint w - 2 ^ 63 + 1 * 2 ^ 64"
      by simp
    then have "(uint w + 2 ^ 63) mod 2 ^ 64 = (uint w - 2 ^ 63 + 1 * 2 ^ 64) mod 2 ^ 64"
      by (rule arg_cong)
    also have "\<dots> = (uint w - 2 ^ 63) mod 2 ^ 64"
      by (rule mod_mult_self1)
    also have "\<dots> = uint w - 2 ^ 63"
      using b False by (intro mod_pos_pos_trivial) simp_all
    finally have "sint w < 0" using s b by simp
    then show ?thesis using assms by simp
  qed
qed


lemma unat_nonneg_step:
  assumes "0 \<le>s (step :: 64 word)"
  shows "unat step = nat (sint step)"
proof -
  have "0 \<le> sint step" using assms by (simp add: word_sle_eq)
  then have "sint step = uint step" by (rule sint_nonneg_uint)
  then show ?thesis by simp
qed

lemma counter_advance:
  assumes s: "0 \<le>s (step :: 64 word)"
    and b: "unat c + nat (sint step) + k < 2 ^ 64"
  shows "unat (c + step + of_nat k) = unat c + nat (sint step) + k"
proof -
  have u: "unat step = nat (sint step)" using s by (rule unat_nonneg_step)
  have "k < 2 ^ 64" using b by simp
  then have k: "unat (of_nat k :: 64 word) = k"
    by (simp add: unat_of_nat)
  have 1: "unat (c + step) = unat c + unat step"
    using b u by (intro unat_add_lem [THEN iffD1]) simp
  have "unat (c + step + of_nat k) = unat (c + step) + unat (of_nat k :: 64 word)"
    using b u 1 k by (intro unat_add_lem [THEN iffD1]) simp
  then show ?thesis using 1 u k by simp
qed


lemma sint_ucast_small:
  assumes "uint (w :: 64 word) < 2 ^ 31"
  shows "sint (ucast w :: c_int) = uint w"
proof -
  have "(0 :: int) \<le> 2 ^ 31" by simp
  then have lo: "- (2 ^ 31) \<le> uint w" using uint_nonnegative [of w] by linarith
  have "(ucast w :: c_int) = ucast (word_of_int (uint w) :: 64 word)" by simp
  then have "(ucast w :: c_int) = word_of_int (uint w)"
    by (simp only: ucast_64_32_of_int)
  then show ?thesis using lo assms by (simp only: sint_of_int_32)
qed

section \<open>The sweeps\<close>

lemma validate_loop_first_match:
  "otptoken_validate_loop hotp now steps code i tok d =
     first_match hotp now code
       (concat (map (\<lambda>i. [of_nat i, 0 - of_nat i]) [i..<Suc steps])) tok d"
proof (induction hotp now steps code i tok d rule: otptoken_validate_loop.induct)
  case (1 hotp now steps code i tok d)
  show ?case
  proof (cases "i \<le> steps")
    case True
    then have u: "[i..<Suc steps] = i # [Suc i..<Suc steps]"
      by (simp add: upt_conv_Cons)
    show ?thesis
      apply (subst otptoken_validate_loop.simps)
      apply (simp only: u)
      using True "1.IH"
      apply (auto simp: Let_def split: prod.splits)
      done
  next
    case False
    then show ?thesis
      by (subst otptoken_validate_loop.simps) simp
  qed
qed

lemma first_match_skip:
  "\<not> list_ex (passes hotp tok now code) pre \<Longrightarrow>
   first_match hotp now code (pre @ rest) tok d = first_match hotp now code rest tok d"
  by (induction pre) (auto simp: validate_single_eq passes_def)

lemma first_match_none:
  "\<not> list_ex (passes hotp tok now code) offs \<Longrightarrow>
   first_match hotp now code offs tok d = (False, tok, d)"
  using first_match_skip [of hotp tok now code offs "[]" d] by simp

lemma first_match_hit:
  "passes hotp tok now code off \<Longrightarrow> accepted d \<Longrightarrow>
   first_match hotp now code (off # post) tok d =
     (True, set_cursor tok (baseline tok now + off + 1),
      stored d (sdn tok) (cursor_attr tok) (ucast (baseline tok now + off + 1)))"
  by (simp add: validate_single_eq passes_def)

lemma otptoken_validate_eq:
  "otptoken_validate hotp clock d (Some tok) steps code =
     (if type tok = OTPTOKEN_TOTP \<and> clock = - 1 then (False, Some tok, d)
      else
        (let (ok, tok', d') =
               first_match hotp (if type tok = OTPTOKEN_TOTP then clock else 0) code
                 (candidate_offsets steps) tok d
         in (ok, Some tok', d')))"
  by (simp add: otptoken_validate_def validate_loop_first_match candidate_offsets_def Let_def)

lemma otptoken_validate_none:
  assumes "\<not> list_ex (passes hotp tok (if type tok = OTPTOKEN_TOTP then clock else 0) code)
               (candidate_offsets steps)"
  shows "otptoken_validate hotp clock d (Some tok) steps code = (False, Some tok, d)"
  using first_match_none [OF assms] by (simp add: otptoken_validate_eq)

lemma sync_tokens_first_sync:
  "otptoken_sync_tokens hotp now i c1 c2 j tokens d = (ok, tokens', d') \<Longrightarrow>
   first_sync hotp now c1 c2
     (concat (map (\<lambda>j. [(j, of_nat i), (j, 0 - of_nat i)]) [j..<length tokens]) @ rest)
     tokens d =
     (if ok then (True, tokens', d') else first_sync hotp now c1 c2 rest tokens' d')"
proof (induction hotp now i c1 c2 j tokens d rule: otptoken_sync_tokens.induct)
  case (1 hotp now i c1 c2 j tokens d)
  show ?case
  proof (cases "j < length tokens")
    case True
    then have u: "[j..<length tokens] = j # [Suc j..<length tokens]"
      by (simp add: upt_conv_Cons)
    show ?thesis
      using "1.prems"
      apply (subst (asm) otptoken_sync_tokens.simps)
      apply (simp only: u)
      using True "1.IH"
      apply (auto simp: Let_def split: prod.splits if_splits)
      done
  next
    case False
    then show ?thesis
      using "1.prems"
      by (subst (asm) otptoken_sync_tokens.simps) auto
  qed
qed

lemma sync_tokens_length:
  "otptoken_sync_tokens hotp now i c1 c2 j tokens d = (ok, tokens', d') \<Longrightarrow>
   length tokens' = length tokens"
proof (induction hotp now i c1 c2 j tokens d rule: otptoken_sync_tokens.induct)
  case (1 hotp now i c1 c2 j tokens d)
  show ?case
    using "1.prems"
    apply (subst (asm) otptoken_sync_tokens.simps)
    using "1.IH"
    apply (auto simp: Let_def split: prod.splits if_splits)
    done
qed

lemma sync_loop_first_sync:
  "otptoken_sync_loop hotp now steps c1 c2 i tokens d =
     first_sync hotp now c1 c2
       (concat (map (\<lambda>i. concat (map (\<lambda>j. [(j, of_nat i), (j, 0 - of_nat i)])
                                     [0..<length tokens]))
                 [i..<Suc steps])) tokens d"
proof (induction hotp now steps c1 c2 i tokens d rule: otptoken_sync_loop.induct)
  case (1 hotp now steps c1 c2 i tokens d)
  show ?case
  proof (cases "i \<le> steps")
    case True
    then have u: "[i..<Suc steps] = i # [Suc i..<Suc steps]"
      by (simp add: upt_conv_Cons)
    obtain ok tokens' d' where
      inner: "otptoken_sync_tokens hotp now i c1 c2 0 tokens d = (ok, tokens', d')"
      by (cases "otptoken_sync_tokens hotp now i c1 c2 0 tokens d") auto
    have len: "length tokens' = length tokens"
      using inner by (rule sync_tokens_length)
    show ?thesis
      apply (subst otptoken_sync_loop.simps)
      apply (simp only: u)
      using True inner "1.IH" [OF True inner [symmetric] refl] len
        sync_tokens_first_sync [OF inner]
      apply (auto simp: Let_def)
      done
  next
    case False
    then show ?thesis
      by (subst otptoken_sync_loop.simps) simp
  qed
qed





section \<open>Claims about the code decoder and the token lookup\<close>

text \<open>
  Claim C10. \<^verbatim>\<open>otptoken_sync_berval\<close> compares no length with any token's code length:
  two non-empty strings of digits, of any length, both parse, each to the number it
  denotes reduced modulo \<open>2 ^ 32\<close>, and the synchronization then runs on these two
  numbers; the call is rejected by the parser only when one of the strings is empty or
  holds a character that is not a digit.
\<close>

theorem sync_berval_no_length_check:
  "otptoken_sync_berval hotp clock d tokensp steps a b =
     (if numeric a \<and> numeric b
      then otptoken_sync hotp clock d tokensp steps
             (of_nat (decimal_value a mod 2 ^ 32)) (of_nat (decimal_value b mod 2 ^ 32))
      else (False, tokensp, d))"
proof -
  have m: "(of_nat (n mod 2 ^ 32) :: 32 word) = of_nat n" for n
    by (simp add: word_of_nat_eq_iff take_bit_eq_mod)
  show ?thesis
    unfolding m by (simp add: otptoken_sync_berval_def bvtod_eq)
qed

theorem sync_berval_no_length_check_witness:
  "otptoken_sync_berval example_hotp 1000 empty_directory (Some [example_hotp_token]) 0
      ''12345678901'' ''0007'' =
   otptoken_sync example_hotp 1000 empty_directory (Some [example_hotp_token]) 0
      3755744309 7"
  using sync_berval_no_length_check [of example_hotp 1000 empty_directory
     "Some [example_hotp_token]" 0 "''12345678901''" "''0007''"]
  by (simp add: numeric_def is_digit_def decimal_value_def)

text \<open>
  Claim C9, as the code has it. A lookup builds its tokens all or nothing: \<^verbatim>\<open>find\<close>
  returns the tokens of all the entries, in order, when every entry builds a token, and
  \<^verbatim>\<open>NULL\<close> as soon as one entry fails to build, whatever its siblings are.
\<close>

theorem find_all_or_nothing:
  "find_tokens token_dn basedn result (Some es) =
     (if (token_dn \<noteq> None \<or> basedn \<noteq> None) \<and> result = LDAP_SUCCESS
          \<and> list_all (\<lambda>e. otptoken_new e \<noteq> None) es
      then Some (map (\<lambda>e. the (otptoken_new e)) es) else None)"
proof -
  have "find_loop es acc =
          (if list_all (\<lambda>e. otptoken_new e \<noteq> None) es
           then Some (acc @ map (\<lambda>e. the (otptoken_new e)) es) else None)" for acc
    by (induction es arbitrary: acc) (auto split: option.splits)
  then show ?thesis by (simp add: find_tokens_def)
qed

lemma otptoken_new_example: "otptoken_new example_entry = Some example_hotp_token"
  by code_simp

lemma otptoken_new_bad_example: "otptoken_new example_bad_entry = None"
  by code_simp

theorem find_all_or_nothing_witness:
  "find_tokens None (Some ''dc=example'') LDAP_SUCCESS (Some [example_entry, example_entry]) =
     Some [example_hotp_token, example_hotp_token]"
  using find_all_or_nothing [of None "Some ''dc=example''" LDAP_SUCCESS
     "[example_entry, example_entry]"]
  by (simp add: otptoken_new_example)

text \<open>The claim as the specification states it fails: one entry builds a token, its
  sibling does not, and the lookup returns nothing.\<close>

theorem find_sibling_failure_counterexample:
  "otptoken_new example_entry \<noteq> None \<and>
   find_tokens None (Some ''dc=example'') LDAP_SUCCESS (Some [example_entry, example_bad_entry]) = None"
  by (simp add: find_tokens_def otptoken_new_example otptoken_new_bad_example)

section \<open>Claims about the search order\<close>

text \<open>
  Claim C6. Single-code validation tries the candidate offsets in the order
  \<open>+0, -0, +1, -1, \<dots>, +steps, -steps\<close> and stops at the first one that \<^verbatim>\<open>validate\<close>
  accepts: \<^verbatim>\<open>otptoken_validate\<close> is the sweep \<open>first_match\<close> over \<open>candidate_offsets steps\<close>.
  When no candidate passes the guard with a generated code equal to the presented one,
  the result is \<^verbatim>\<open>false\<close> and nothing has changed. When some candidate does, the first
  such candidate is the one accepted, with the cursor moved just past its step, provided
  the server accepts the write.
\<close>

theorem single_code_sweep_order:
  assumes now: "now = (if type tok = OTPTOKEN_TOTP then clock else 0)"
    and clk: "\<not> (type tok = OTPTOKEN_TOTP \<and> clock = - 1)"
  shows
   "otptoken_validate hotp clock d (Some tok) steps code =
      (let (ok, tok', d') = first_match hotp now code (candidate_offsets steps) tok d
       in (ok, Some tok', d'))
    \<and> (\<not> list_ex (passes hotp tok now code) (candidate_offsets steps) \<longrightarrow>
         otptoken_validate hotp clock d (Some tok) steps code = (False, Some tok, d))
    \<and> (\<forall>pre off post.
         candidate_offsets steps = pre @ off # post
           \<and> \<not> list_ex (passes hotp tok now code) pre
           \<and> passes hotp tok now code off \<and> accepted d \<longrightarrow>
         otptoken_validate hotp clock d (Some tok) steps code =
           (True, Some (set_cursor tok (baseline tok now + off + 1)),
            stored d (sdn tok) (cursor_attr tok) (ucast (baseline tok now + off + 1))))"
proof -
  let ?r = "otptoken_validate hotp clock d (Some tok) steps code"
  have eq: "?r = (let (ok, tok', d') = first_match hotp now code (candidate_offsets steps) tok d
                 in (ok, Some tok', d'))"
    using now clk by (auto simp: otptoken_validate_eq)
  have none: "?r = (False, Some tok, d)"
    if "\<not> list_ex (passes hotp tok now code) (candidate_offsets steps)"
    using first_match_none [OF that] eq by simp
  have hit: "?r = (True, Some (set_cursor tok (baseline tok now + off + 1)),
              stored d (sdn tok) (cursor_attr tok) (ucast (baseline tok now + off + 1)))"
    if "candidate_offsets steps = pre @ off # post"
       "\<not> list_ex (passes hotp tok now code) pre" "passes hotp tok now code off" "accepted d"
    for pre off post
    using eq that first_match_skip [of hotp tok now code pre "off # post" d]
      first_match_hit [of hotp tok now code off d post]
    by simp
  show ?thesis using eq none hit by blast
qed

text \<open>The scenario of the specification: an HOTP token with counter 5 and radius 2, and
  the code of step 7. The offsets \<open>0, 0, 1, -1\<close> do not pass, \<open>+2\<close> does, and the counter
  written is 8. The code of step 4 matches at no candidate: offset \<open>-1\<close> does not pass the
  guard.\<close>

theorem single_code_sweep_order_witness:
  "candidate_offsets 2 = [0, 0, 1, - 1, 2, - 2] \<and>
   otptoken_validate example_hotp 0 empty_directory (Some example_hotp_token) 2 300007 =
     (True, Some (example_hotp_token\<lparr>hotp_counter := 8\<rparr>),
      \<lparr>entries = [(''cn=h'', ''ipaTokenHOTPcounter'') \<mapsto> 8], faults = []\<rparr>) \<and>
   otptoken_validate example_hotp 0 empty_directory (Some example_hotp_token) 2 300004 =
     (False, Some example_hotp_token, empty_directory)"
proof -
  have c: "candidate_offsets 2 = [0, 0, 1, - 1, 2, - 2]"
    by (simp add: candidate_offsets_def upt_rec)
  have h: "(0 :: time_t) = (if type example_hotp_token = OTPTOKEN_TOTP then 0 else 0)"
    "\<not> (type example_hotp_token = OTPTOKEN_TOTP \<and> (0 :: time_t) = - 1)"
    by (simp_all add: example_hotp_token_def)
  have p: "\<not> list_ex (passes example_hotp example_hotp_token 0 300007) [0, 0, 1, - 1]"
    "passes example_hotp example_hotp_token 0 300007 2" "accepted empty_directory"
    by (simp_all add: passes_def guard_def baseline_def example_hotp_def example_hotp_token_def
         accepted_def empty_directory_def word_sle_eq)
  have q: "\<not> list_ex (passes example_hotp example_hotp_token 0 300004) (candidate_offsets 2)"
    unfolding c
    by (simp add: passes_def guard_def baseline_def example_hotp_def example_hotp_token_def
         word_sle_eq)
  have 1: "otptoken_validate example_hotp 0 empty_directory (Some example_hotp_token) 2 300007 =
     (True, Some (set_cursor example_hotp_token (baseline example_hotp_token 0 + 2 + 1)),
        stored empty_directory (sdn example_hotp_token) (cursor_attr example_hotp_token)
          (ucast (baseline example_hotp_token 0 + 2 + 1)))"
    using single_code_sweep_order [OF h, of example_hotp empty_directory 2 300007]
      c p by (metis append_Cons append_Nil)
  have 2: "otptoken_validate example_hotp 0 empty_directory (Some example_hotp_token) 2 300004 =
     (False, Some example_hotp_token, empty_directory)"
    using single_code_sweep_order [OF h, of example_hotp empty_directory 2 300004] q
    by blast
  show ?thesis
    using c 1 2 by (simp add: set_cursor_def baseline_def cursor_attr_def stored_def
        example_hotp_token_def empty_directory_def)
qed

lemma cursor_set_cursor:
  "type tok \<noteq> OTPTOKEN_NONE \<Longrightarrow> cursor (set_cursor tok s) = s"
  by (cases "type tok") (simp_all add: cursor_def set_cursor_def)

lemma guard_type: "guard tok now off \<Longrightarrow> type tok \<noteq> OTPTOKEN_NONE"
  by (auto simp: guard_def)



section \<open>Claims about one validation\<close>

lemma accepted_stored: "accepted (stored d dn a x) = accepted (refused d)"
  by (simp add: accepted_def stored_def refused_def)

lemma refused_stored: "refused (stored d dn a x) = stored (refused d) dn a x"
  by (simp add: stored_def refused_def)

lemma candidate_offsets_head:
  "\<exists>rest. candidate_offsets steps = 0 # 0 # rest"
  by (simp add: candidate_offsets_def upt_rec [of 0])

lemma sync_attempts_head:
  "\<exists>rest. sync_attempts steps (Suc n) = (0, 0) # (0, 0) # rest"
  by (simp add: sync_attempts_def upt_rec [of 0])

lemma otptoken_sync_eq:
  "otptoken_sync hotp clock d (Some tokens) steps c1 c2 =
     (if clock = - 1 then (False, Some tokens, d)
      else
        (let (ok, tokens', d') =
               first_sync hotp clock c1 c2 (sync_attempts steps (length tokens)) tokens d
         in (ok, Some tokens', d')))"
  by (simp add: otptoken_sync_def sync_loop_first_sync sync_attempts_def)

text \<open>
  Claim C1, as the code has it. A call of \<^verbatim>\<open>validate\<close> that returns \<^verbatim>\<open>false\<close> leaves the
  token in memory as it was, and leaves every stored value as it was except possibly the
  clock offset of the token's record; in single-code mode and for a token that is not
  TOTP it leaves the whole directory content as it was. When the server refuses the first
  request the call fails and nothing is stored. In a two-code TOTP resynchronization
  whose two codes match, when the server accepts the first request and refuses the
  second, the call fails and the directory content is the one before the call with the
  new clock offset written into it. A failed call does not end the request: the sweep
  goes on to the next candidate, which for radius 0 is the same step again, so that
  \<^verbatim>\<open>otptoken_validate\<close> returns \<^verbatim>\<open>true\<close> after a refused write when the next request is
  accepted, and so does \<^verbatim>\<open>otptoken_sync\<close> after a refused watermark write.
\<close>

theorem validate_failed_commit:
  assumes v: "validate hotp d tok now step first second = (ok, tok', d')"
  shows
   "(\<not> ok \<longrightarrow> tok' = tok
        \<and> (\<forall>k. k \<noteq> (sdn tok, ''ipaTokenTOTPclockOffset'') \<longrightarrow> entries d' k = entries d k))
    \<and> (\<not> ok \<and> (second = None \<or> type tok \<noteq> OTPTOKEN_TOTP) \<longrightarrow> entries d' = entries d)
    \<and> (\<not> accepted d \<longrightarrow> \<not> ok \<and> entries d' = entries d)
    \<and> (type tok = OTPTOKEN_TOTP \<and> second \<noteq> None \<and> \<not> accepted (refused d) \<longrightarrow> \<not> ok)
    \<and> (type tok = OTPTOKEN_TOTP \<and> guard tok now step
          \<and> hotp (token tok) (baseline tok now + step) = Some first
          \<and> second \<noteq> None \<and> hotp (token tok) (baseline tok now + step + 1) = second
          \<and> accepted d \<and> \<not> accepted (refused d) \<longrightarrow>
         \<not> ok
         \<and> entries d' =
             (entries d)((sdn tok, ''ipaTokenTOTPclockOffset'') \<mapsto>
                clock_offset tok now (baseline tok now + step + 2)))
    \<and> (now = (if type tok = OTPTOKEN_TOTP then clock else 0)
          \<and> \<not> (type tok = OTPTOKEN_TOTP \<and> clock = - 1)
          \<and> passes hotp tok now code 0 \<and> \<not> accepted d \<and> accepted (refused d) \<longrightarrow>
         otptoken_validate hotp clock d (Some tok) steps code =
           (True, Some (set_cursor tok (baseline tok now + 1)),
            stored (refused d) (sdn tok) (cursor_attr tok) (ucast (baseline tok now + 1))))
    \<and> (type tok = OTPTOKEN_TOTP \<and> clock \<noteq> - 1
          \<and> sync_passes hotp clock c1 c2 (tok # others) (0, 0)
          \<and> accepted d \<and> \<not> accepted (refused d) \<and> accepted (refused (refused d))
          \<and> accepted (refused (refused (refused d))) \<longrightarrow>
         fst (otptoken_sync hotp clock d (Some (tok # others)) steps c1 c2))"
proof -
  have part1:
   "(\<not> ok \<longrightarrow> tok' = tok
        \<and> (\<forall>k. k \<noteq> (sdn tok, ''ipaTokenTOTPclockOffset'') \<longrightarrow> entries d' k = entries d k))
    \<and> (\<not> ok \<and> (second = None \<or> type tok \<noteq> OTPTOKEN_TOTP) \<longrightarrow> entries d' = entries d)
    \<and> (\<not> accepted d \<longrightarrow> \<not> ok \<and> entries d' = entries d)
    \<and> (type tok = OTPTOKEN_TOTP \<and> second \<noteq> None \<and> \<not> accepted (refused d) \<longrightarrow> \<not> ok)"
  proof (cases second)
    case None
    show ?thesis
      using v unfolding None validate_single_eq
      by (auto simp: refused_def stored_def split: if_splits)
  next
    case (Some c2)
    show ?thesis
      using v unfolding Some validate_sync_eq Let_def accepted_stored
      by (auto simp: refused_def stored_def split: if_splits)
  qed
  have part2: "\<not> ok \<and> entries d' =
             (entries d)((sdn tok, ''ipaTokenTOTPclockOffset'') \<mapsto>
                clock_offset tok now (baseline tok now + step + 2))"
    if h: "type tok = OTPTOKEN_TOTP" "guard tok now step"
      "hotp (token tok) (baseline tok now + step) = Some first"
      "second \<noteq> None" "hotp (token tok) (baseline tok now + step + 1) = second"
      "accepted d" "\<not> accepted (refused d)"
  proof -
    obtain c2 where s: "second = Some c2" using h(4) by auto
    show ?thesis
      using v h unfolding s validate_sync_eq Let_def accepted_stored
      by (auto simp: refused_def stored_def)
  qed
  have part3: "otptoken_validate hotp clock d (Some tok) steps code =
           (True, Some (set_cursor tok (baseline tok now + 1)),
            stored (refused d) (sdn tok) (cursor_attr tok) (ucast (baseline tok now + 1)))"
    if n: "now = (if type tok = OTPTOKEN_TOTP then clock else 0)"
      and c: "\<not> (type tok = OTPTOKEN_TOTP \<and> clock = - 1)"
      and p: "passes hotp tok now code 0" and a: "\<not> accepted d" "accepted (refused d)"
  proof -
    obtain rest where r: "candidate_offsets steps = 0 # 0 # rest"
      using candidate_offsets_head by blast
    have "first_match hotp now code (0 # 0 # rest) tok d =
            (True, set_cursor tok (baseline tok now + 1),
             stored (refused d) (sdn tok) (cursor_attr tok) (ucast (baseline tok now + 1)))"
      using p a by (simp add: validate_single_eq passes_def)
    then show ?thesis
      using c by (auto simp: otptoken_validate_eq r n)
  qed
  have part4: "fst (otptoken_sync hotp clock d (Some (tok # others)) steps c1 c2)"
    if t: "type tok = OTPTOKEN_TOTP" and c: "clock \<noteq> - 1"
      and p: "sync_passes hotp clock c1 c2 (tok # others) (0, 0)"
      and a: "accepted d" "\<not> accepted (refused d)" "accepted (refused (refused d))"
        "accepted (refused (refused (refused d)))"
  proof -
    obtain rest where r: "sync_attempts steps (length (tok # others)) = (0, 0) # (0, 0) # rest"
      using sync_attempts_head [of steps "length others"] by auto
    have "fst (first_sync hotp clock c1 c2 ((0, 0) # (0, 0) # rest) (tok # others) d)"
      using p t a
      by (simp add: validate_sync_eq sync_passes_def Let_def accepted_stored refused_stored)
    then show ?thesis
      using c unfolding otptoken_sync_eq r by (simp add: split_beta)
  qed
  show ?thesis
    using part1 part2 part3 part4 by blast
qed

text \<open>A TOTP token with step 30 at time 3000 (baseline 100), presented with the codes of
  steps 100 and 101; the server accepts the clock offset and refuses the watermark.\<close>

lemma example_totp_baseline: "baseline example_totp_token 3000 = 100"
  by (simp add: baseline_def example_totp_token_def c_sdiv_def)

lemma example_totp_resync:
  "validate example_hotp example_totp_directory example_totp_token 3000 0 300100 (Some 300101) =
     (False, example_totp_token,
      refused (stored example_totp_directory ''cn=t'' ''ipaTokenTOTPclockOffset'' 60))"
proof -
  have g: "guard example_totp_token 3000 0"
    by (simp add: guard_def example_totp_token_def)
  have h: "example_hotp (token example_totp_token) 100 = Some 300100"
    "example_hotp (token example_totp_token) 101 = Some 300101"
    by (simp_all add: example_hotp_def example_totp_token_def)
  have c: "clock_offset example_totp_token 3000 102 = 60"
    by (simp add: clock_offset_def example_totp_token_def c_sdiv_def)
  have t: "type example_totp_token = OTPTOKEN_TOTP" "sdn example_totp_token = ''cn=t''"
    by (simp_all add: example_totp_token_def)
  have a: "accepted example_totp_directory"
    "\<not> accepted (stored example_totp_directory ''cn=t'' ''ipaTokenTOTPclockOffset'' 60)"
    by (simp_all add: accepted_def example_totp_directory_def stored_def)
  show ?thesis
    by (simp add: validate_sync_eq Let_def example_totp_baseline g h c t a)
qed

text \<open>The claim as the specification states it fails: the call returns \<^verbatim>\<open>false\<close> and the
  stored clock offset has changed from 0 to 60.\<close>

theorem validate_partial_commit_counterexample:
  "fst (validate example_hotp example_totp_directory example_totp_token 3000 0 300100
          (Some 300101)) = False \<and>
   entries (snd (snd (validate example_hotp example_totp_directory example_totp_token 3000 0
                        300100 (Some 300101))))
     (''cn=t'', ''ipaTokenTOTPclockOffset'') = Some 60 \<and>
   entries example_totp_directory (''cn=t'', ''ipaTokenTOTPclockOffset'') = Some 0"
  unfolding example_totp_resync
  by (simp add: refused_def stored_def example_totp_directory_def)

text \<open>The same resynchronization through the theorem: the call fails, the directory holds
  the new clock offset 60 and the old watermark 0, and the request as a whole succeeds
  at the second try of offset 0. A single-code call whose only write is refused stores
  nothing, and the request succeeds at the second try.\<close>

theorem validate_failed_commit_witness:
  "fst (validate example_hotp example_totp_directory example_totp_token 3000 0 300100
          (Some 300101)) = False \<and>
   entries (snd (snd (validate example_hotp example_totp_directory example_totp_token 3000 0
                        300100 (Some 300101)))) =
     [(''cn=t'', ''ipaTokenTOTPclockOffset'') \<mapsto> 60, (''cn=t'', ''ipaTokenTOTPwatermark'') \<mapsto> 0] \<and>
   fst (otptoken_sync example_hotp 3000 example_totp_directory (Some [example_totp_token]) 0
          300100 300101) \<and>
   fst (validate example_hotp \<lparr>entries = Map.empty, faults = [True]\<rparr> example_hotp_token 0 0
          300005 None) = False \<and>
   entries (snd (snd (validate example_hotp \<lparr>entries = Map.empty, faults = [True]\<rparr>
                        example_hotp_token 0 0 300005 None))) = Map.empty \<and>
   otptoken_validate example_hotp 0 \<lparr>entries = Map.empty, faults = [True]\<rparr>
       (Some example_hotp_token) 0 300005 =
     (True, Some (example_hotp_token\<lparr>hotp_counter := 6\<rparr>),
      \<lparr>entries = [(''cn=h'', ''ipaTokenHOTPcounter'') \<mapsto> 6], faults = []\<rparr>)"
proof -
  let ?d = "\<lparr>entries = Map.empty, faults = [True]\<rparr> :: directory"
  let ?v = "validate example_hotp ?d example_hotp_token 0 0 300005 None"
  have ty: "type example_totp_token = OTPTOKEN_TOTP"
    by (simp add: example_totp_token_def)
  have g: "guard example_totp_token 3000 0"
    by (simp add: guard_def example_totp_token_def)
  have h: "example_hotp (token example_totp_token) (baseline example_totp_token 3000 + 0)
             = Some 300100"
    "example_hotp (token example_totp_token) (baseline example_totp_token 3000 + 0 + 1)
             = Some 300101"
    unfolding example_totp_baseline
    by (simp_all add: example_hotp_def example_totp_token_def)
  have a: "accepted example_totp_directory" "\<not> accepted (refused example_totp_directory)"
    "accepted (refused (refused example_totp_directory))"
    "accepted (refused (refused (refused example_totp_directory)))"
    by (simp_all add: accepted_def refused_def example_totp_directory_def)
  have sp: "sync_passes example_hotp 3000 300100 300101 (example_totp_token # []) (0, 0)"
    using g h by (simp add: sync_passes_def)
  have c: "clock_offset example_totp_token 3000 (baseline example_totp_token 3000 + 0 + 2) = 60"
    unfolding example_totp_baseline
    by (simp add: clock_offset_def example_totp_token_def c_sdiv_def)
  have 1: "entries (snd (snd (validate example_hotp example_totp_directory example_totp_token
                                3000 0 300100 (Some 300101)))) =
             (entries example_totp_directory)
               ((sdn example_totp_token, ''ipaTokenTOTPclockOffset'') \<mapsto> 60)"
    using validate_failed_commit [OF example_totp_resync] ty g h a c
    by (simp add: example_totp_resync)
  have 2: "fst (otptoken_sync example_hotp 3000 example_totp_directory
                  (Some [example_totp_token]) 0 300100 300101)"
    using validate_failed_commit [OF example_totp_resync, where clock = 3000
        and ?c1.0 = 300100 and ?c2.0 = 300101 and others = "[]" and steps = 0] ty sp a
    by simp
  have v: "?v = (fst ?v, fst (snd ?v), snd (snd ?v))" by simp
  have n: "\<not> accepted ?d" "accepted (refused ?d)"
    by (simp_all add: accepted_def refused_def)
  have p: "passes example_hotp example_hotp_token 0 300005 0"
    "(0 :: time_t) = (if type example_hotp_token = OTPTOKEN_TOTP then 0 else 0)"
    "\<not> (type example_hotp_token = OTPTOKEN_TOTP \<and> (0 :: time_t) = - 1)"
    by (simp_all add: passes_def guard_def baseline_def example_hotp_def example_hotp_token_def)
  have 3: "fst ?v = False \<and> entries (snd (snd ?v)) = Map.empty"
    using validate_failed_commit [OF v] n by simp
  have 4: "otptoken_validate example_hotp 0 ?d (Some example_hotp_token) 0 300005 =
           (True, Some (set_cursor example_hotp_token (baseline example_hotp_token 0 + 1)),
            stored (refused ?d) (sdn example_hotp_token) (cursor_attr example_hotp_token)
              (ucast (baseline example_hotp_token 0 + 1)))"
    using validate_failed_commit [OF v, where clock = 0 and code = 300005 and steps = 0] n p
    by blast
  have e: "(entries example_totp_directory)
               ((sdn example_totp_token, ''ipaTokenTOTPclockOffset'') \<mapsto> 60) =
           [(''cn=t'', ''ipaTokenTOTPclockOffset'') \<mapsto> 60,
            (''cn=t'', ''ipaTokenTOTPwatermark'') \<mapsto> 0]"
    by (auto simp: example_totp_directory_def example_totp_token_def)
  show ?thesis
    using 1 2 3 4 unfolding e
    by (simp add: example_totp_resync set_cursor_def cursor_attr_def baseline_def stored_def
          refused_def example_hotp_token_def)
qed

text \<open>
  Claim C5. A two-code call of \<^verbatim>\<open>validate\<close> that succeeds at step \<open>s\<close> has found the
  first code generated at \<open>s\<close> and the second code generated at \<open>s + 1\<close>; the cursor is then
  \<open>s + 2\<close>, in memory and (as a C \<^verbatim>\<open>int\<close>) in the directory, and for a TOTP token the
  directory also holds the clock offset \<open>(s + 2 - now div step) * step\<close>. The integer
  readings hold for values that fit a C \<^verbatim>\<open>int\<close>, a reference instant that is not negative
  and a step length that is not zero.
\<close>

theorem validate_sync_commits:
  assumes v: "validate hotp d tok now step c1 (Some c2) = (True, tok', d')"
    and s: "s = baseline tok now + step"
    and V: "V = (sint (s + 2) - sint now div uint (totp_step tok)) * uint (totp_step tok)"
  shows
   "hotp (token tok) s = Some c1 \<and> hotp (token tok) (s + 1) = Some c2
    \<and> cursor tok' = s + 2
    \<and> entries d' (sdn tok, cursor_attr tok) = Some (ucast (s + 2))
    \<and> (- (2 ^ 31) \<le> sint (s + 2) \<and> sint (s + 2) < 2 ^ 31 \<longrightarrow>
          sint (ucast (s + 2) :: c_int) = sint (s + 2))
    \<and> (type tok = OTPTOKEN_TOTP \<longrightarrow>
          entries d' (sdn tok, ''ipaTokenTOTPclockOffset'') = Some (clock_offset tok now (s + 2)))
    \<and> (type tok = OTPTOKEN_TOTP \<and> 0 \<le> sint now \<and> totp_step tok \<noteq> 0
          \<and> - (2 ^ 31) \<le> V \<and> V < 2 ^ 31 \<longrightarrow>
          sint (clock_offset tok now (s + 2)) = V)"
proof -
  have g: "guard tok now step" and h1: "hotp (token tok) s = Some c1"
    and h2: "hotp (token tok) (s + 1) = Some c2"
    using v unfolding validate_sync_eq Let_def s by (auto split: if_splits)
  have ty: "type tok \<noteq> OTPTOKEN_NONE" using g by (rule guard_type)
  have t': "tok' = set_cursor tok (s + 2)"
    using v unfolding validate_sync_eq Let_def s by (auto split: if_splits)
  have cur: "cursor tok' = s + 2"
    using ty by (simp add: t' cursor_set_cursor)
  have st: "entries d' (sdn tok, cursor_attr tok) = Some (ucast (s + 2))"
    using v unfolding validate_sync_eq Let_def s by (auto simp: stored_def split: if_splits)
  have off: "entries d' (sdn tok, ''ipaTokenTOTPclockOffset'') = Some (clock_offset tok now (s + 2))"
    if "type tok = OTPTOKEN_TOTP"
    using v that unfolding validate_sync_eq Let_def s
    by (auto simp: stored_def cursor_attr_def split: if_splits)
  have ci: "sint (ucast (s + 2) :: c_int) = sint (s + 2)"
    if "- (2 ^ 31) \<le> sint (s + 2)" "sint (s + 2) < 2 ^ 31"
    using that by (rule cursor_int)
  have oi: "sint (clock_offset tok now (s + 2)) = V"
    if "0 \<le> sint now" "totp_step tok \<noteq> 0" "- (2 ^ 31) \<le> V" "V < 2 ^ 31"
    using that unfolding V by (rule clock_offset_int)
  show ?thesis
    using h1 h2 cur st off ci oi by blast
qed

text \<open>The TOTP token at time 3000 with the codes of steps 100 and 101: the watermark
  becomes 102 and the clock offset \<open>(102 - 100) * 30 = 60\<close>.\<close>

lemma example_totp_sync:
  "validate example_hotp empty_directory example_totp_token 3000 0 300100 (Some 300101) =
     (True, example_totp_token\<lparr>totp_watermark := 102\<rparr>,
      \<lparr>entries = [(''cn=t'', ''ipaTokenTOTPclockOffset'') \<mapsto> 60,
                  (''cn=t'', ''ipaTokenTOTPwatermark'') \<mapsto> 102],
       faults = []\<rparr>)"
proof -
  have g: "guard example_totp_token 3000 0"
    by (simp add: guard_def example_totp_token_def)
  have h: "example_hotp (token example_totp_token) 100 = Some 300100"
    "example_hotp (token example_totp_token) 101 = Some 300101"
    by (simp_all add: example_hotp_def example_totp_token_def)
  have c: "clock_offset example_totp_token 3000 102 = 60"
    by (simp add: clock_offset_def example_totp_token_def c_sdiv_def)
  have t: "type example_totp_token = OTPTOKEN_TOTP" "sdn example_totp_token = ''cn=t''"
    "cursor_attr example_totp_token = ''ipaTokenTOTPwatermark''"
    "set_cursor example_totp_token 102 = example_totp_token\<lparr>totp_watermark := 102\<rparr>"
    by (simp_all add: example_totp_token_def cursor_attr_def set_cursor_def)
  have a: "accepted empty_directory"
    "accepted (stored empty_directory ''cn=t'' ''ipaTokenTOTPclockOffset'' 60)"
    by (simp_all add: accepted_def empty_directory_def stored_def)
  show ?thesis
    by (simp add: validate_sync_eq Let_def example_totp_baseline g h c t a)
       (simp add: stored_def empty_directory_def)
qed

theorem validate_sync_commits_witness:
  "validate example_hotp empty_directory example_totp_token 3000 0 300100 (Some 300101) =
     (True, example_totp_token\<lparr>totp_watermark := 102\<rparr>,
      \<lparr>entries = [(''cn=t'', ''ipaTokenTOTPclockOffset'') \<mapsto> 60,
                  (''cn=t'', ''ipaTokenTOTPwatermark'') \<mapsto> 102],
       faults = []\<rparr>)
   \<and> cursor (example_totp_token\<lparr>totp_watermark := 102\<rparr>) = 100 + 2
   \<and> sint (clock_offset example_totp_token 3000 (100 + 2)) = (102 - 3000 div 30) * 30"
proof -
  have V: "(60 :: int) =
      (sint (100 + 2 :: 64 word) - sint (3000 :: 64 word) div uint (totp_step example_totp_token))
        * uint (totp_step example_totp_token)"
    by (simp add: example_totp_token_def)
  have p: "type example_totp_token = OTPTOKEN_TOTP" "0 \<le> sint (3000 :: 64 word)"
    "totp_step example_totp_token \<noteq> 0" "- (2 ^ 31) \<le> (60 :: int)" "(60 :: int) < 2 ^ 31"
    by (simp_all add: example_totp_token_def)
  have s: "(100 :: uint64_t) = baseline example_totp_token 3000 + 0"
    by (simp add: example_totp_baseline)
  from validate_sync_commits [OF example_totp_sync s V]
  show ?thesis
    using p example_totp_sync by simp
qed

text \<open>
  Claim C2, as the code has it. For an HOTP token a negative offset is rejected whatever
  the generator is, so before any code is generated; a call of \<^verbatim>\<open>validate\<close> that succeeds,
  in either mode, has a non-negative offset, accepts the step \<open>counter + offset\<close> and leaves
  the counter one or two past it, computed modulo \<open>2 ^ 64\<close>, in memory and, converted to a
  C \<^verbatim>\<open>int\<close>, in the directory; a call that fails leaves the counter as it was. As long as
  \<open>counter + offset + 2\<close> stays below \<open>2 ^ 64\<close>, the accepted step is at least the counter
  and the new counter is strictly greater. As long as it stays below \<open>2 ^ 31\<close> and the
  directory holds the token's counter before the call, the stored counter strictly
  increases and reads as the new counter.
\<close>

theorem hotp_never_backwards:
  assumes ty: "type tok = OTPTOKEN_HOTP"
  shows
   "(step <s 0 \<longrightarrow> (\<forall>g. validate g d tok now step first second = (False, tok, d)))
    \<and> (validate hotp d tok now step first second = (True, tok', d') \<longrightarrow>
          0 \<le>s step
          \<and> hotp (token tok) (hotp_counter tok + step) = Some first
          \<and> hotp_counter tok' = hotp_counter tok + step + (if second = None then 1 else 2)
          \<and> entries d' (sdn tok, ''ipaTokenHOTPcounter'') = Some (ucast (hotp_counter tok'))
          \<and> (unat (hotp_counter tok) + nat (sint step) + 2 < 2 ^ 64 \<longrightarrow>
                hotp_counter tok \<le> hotp_counter tok + step
                \<and> hotp_counter tok < hotp_counter tok')
          \<and> (unat (hotp_counter tok) + nat (sint step) + 2 < 2 ^ 31 \<longrightarrow>
                sint (ucast (hotp_counter tok') :: c_int) = uint (hotp_counter tok')
                \<and> (\<forall>v. entries d (sdn tok, ''ipaTokenHOTPcounter'') = Some v
                          \<and> sint v = uint (hotp_counter tok) \<longrightarrow>
                        (\<exists>v'. entries d' (sdn tok, ''ipaTokenHOTPcounter'') = Some v'
                              \<and> sint v < sint v'))))
    \<and> (validate hotp d tok now step first second = (False, tok', d') \<longrightarrow>
          hotp_counter tok' = hotp_counter tok)"
proof -
  let ?c = "hotp_counter tok"
  have b: "baseline tok now = ?c" "cursor_attr tok = ''ipaTokenHOTPcounter''"
    and g: "guard tok now step = (0 \<le>s step)"
    and sc: "hotp_counter (set_cursor tok x) = x" for x
    using ty by (simp_all add: baseline_def cursor_attr_def guard_def set_cursor_def)
  have neg: "validate g d tok now step first second = (False, tok, d)" if "step <s 0" for g
  proof -
    have "\<not> guard tok now step" using that by (simp add: g word_sle_eq word_sless_alt)
    then show ?thesis
      by (cases second) (simp_all add: validate_single_eq validate_sync_eq Let_def)
  qed
  have fail: "hotp_counter tok' = ?c"
    if "validate hotp d tok now step first second = (False, tok', d')"
    using that
    by (cases second) (auto simp: validate_single_eq validate_sync_eq Let_def split: if_splits)
  have ok: "0 \<le>s step \<and> hotp (token tok) (?c + step) = Some first
          \<and> hotp_counter tok' = ?c + step + (if second = None then 1 else 2)
          \<and> entries d' (sdn tok, ''ipaTokenHOTPcounter'') = Some (ucast (hotp_counter tok'))"
    if "validate hotp d tok now step first second = (True, tok', d')"
    using that ty
    by (cases second)
       (auto simp: validate_single_eq validate_sync_eq Let_def b g sc stored_def
             split: if_splits)
  have mono: "?c \<le> ?c + step \<and> ?c < hotp_counter tok'"
    if v: "validate hotp d tok now step first second = (True, tok', d')"
      and w: "unat ?c + nat (sint step) + 2 < 2 ^ 64"
  proof -
    let ?k = "if second = None then 1 else 2 :: nat"
    have s: "0 \<le>s step" and c': "hotp_counter tok' = ?c + step + of_nat ?k"
      using ok [OF v] by auto
    have 0: "unat (?c + step + of_nat 0) = unat ?c + nat (sint step) + 0"
      using s w by (intro counter_advance) simp_all
    have k: "unat (?c + step + of_nat ?k) = unat ?c + nat (sint step) + ?k"
      using s w by (intro counter_advance) auto
    show ?thesis
      using 0 k unfolding c' by (simp add: word_le_nat_alt word_less_nat_alt)
  qed
  have int: "sint (ucast (hotp_counter tok') :: c_int) = uint (hotp_counter tok')"
    if v: "validate hotp d tok now step first second = (True, tok', d')"
      and w: "unat ?c + nat (sint step) + 2 < 2 ^ 31"
  proof -
    let ?k = "if second = None then 1 else 2 :: nat"
    have s: "0 \<le>s step" and c': "hotp_counter tok' = ?c + step + of_nat ?k"
      using ok [OF v] by auto
    have "unat ?c + nat (sint step) + ?k < 2 ^ 64" using w by auto
    then have k: "unat (hotp_counter tok') = unat ?c + nat (sint step) + ?k"
      unfolding c' using s by (intro counter_advance)
    have "unat (hotp_counter tok') < 2 ^ 31" using k w by auto
    then have "uint (hotp_counter tok') < 2 ^ 31"
      by (metis of_nat_less_numeral_power_cancel_iff of_nat_unat)
    then show ?thesis by (rule sint_ucast_small)
  qed
  have store: "\<exists>v'. entries d' (sdn tok, ''ipaTokenHOTPcounter'') = Some v' \<and> sint v < sint v'"
    if v: "validate hotp d tok now step first second = (True, tok', d')"
      and w: "unat ?c + nat (sint step) + 2 < 2 ^ 31"
      and e: "entries d (sdn tok, ''ipaTokenHOTPcounter'') = Some v"
        "sint v = uint ?c"
    for v
  proof -
    have "unat ?c + nat (sint step) + 2 < 2 ^ 64" using w by simp
    then have "?c < hotp_counter tok'" using mono [OF v] by simp
    then have "uint ?c < uint (hotp_counter tok')" by (simp add: word_less_def)
    then have "sint v < sint (ucast (hotp_counter tok') :: c_int)"
      using int [OF v w] e by simp
    then show ?thesis using ok [OF v] by simp
  qed
  show ?thesis
    using neg ok mono int store fail by blast
qed

text \<open>The HOTP token with counter 5, the directory holding 5: offset \<open>-1\<close> is rejected,
  offset 2 with the code of step 7 is accepted, and the counter becomes 8 in memory and
  in the directory.\<close>

lemma example_hotp_validate:
  "validate example_hotp empty_directory example_hotp_token 0 2 300007 None =
     (True, example_hotp_token\<lparr>hotp_counter := 8\<rparr>,
      \<lparr>entries = [(''cn=h'', ''ipaTokenHOTPcounter'') \<mapsto> 8], faults = []\<rparr>)"
  by (simp add: validate_single_eq guard_def baseline_def example_hotp_def
        example_hotp_token_def word_sle_eq accepted_def empty_directory_def set_cursor_def
        cursor_attr_def stored_def)

lemma example_hotp_validate_stored:
  "validate example_hotp \<lparr>entries = [(''cn=h'', ''ipaTokenHOTPcounter'') \<mapsto> c], faults = []\<rparr>
       example_hotp_token 0 k (ucast (5 + k) + 300000) None =
     (if 0 \<le>s k
      then (True, example_hotp_token\<lparr>hotp_counter := 5 + k + 1\<rparr>,
            \<lparr>entries = [(''cn=h'', ''ipaTokenHOTPcounter'') \<mapsto> ucast (5 + k + 1)],
             faults = []\<rparr>)
      else (False, example_hotp_token,
            \<lparr>entries = [(''cn=h'', ''ipaTokenHOTPcounter'') \<mapsto> c], faults = []\<rparr>))"
  by (simp add: validate_single_eq guard_def baseline_def example_hotp_def
        example_hotp_token_def accepted_def set_cursor_def cursor_attr_def stored_def)

theorem hotp_never_backwards_witness:
  "validate example_hotp empty_directory example_hotp_token 0 (- 1) 300004 None =
     (False, example_hotp_token, empty_directory)
   \<and> validate example_hotp empty_directory example_hotp_token 0 2 300007 None =
     (True, example_hotp_token\<lparr>hotp_counter := 8\<rparr>,
      \<lparr>entries = [(''cn=h'', ''ipaTokenHOTPcounter'') \<mapsto> 8], faults = []\<rparr>)
   \<and> hotp_counter example_hotp_token < hotp_counter (example_hotp_token\<lparr>hotp_counter := 8\<rparr>)
   \<and> sint (ucast (hotp_counter (example_hotp_token\<lparr>hotp_counter := 8\<rparr>)) :: c_int) = 8
   \<and> (\<exists>v'. entries \<lparr>entries = [(''cn=h'', ''ipaTokenHOTPcounter'') \<mapsto> 8], faults = []\<rparr>
              (sdn example_hotp_token, ''ipaTokenHOTPcounter'') = Some v'
            \<and> sint (5 :: c_int) < sint v')"
proof -
  let ?d5 = "\<lparr>entries = [(''cn=h'', ''ipaTokenHOTPcounter'') \<mapsto> 5], faults = []\<rparr> :: directory"
  let ?d8 = "\<lparr>entries = [(''cn=h'', ''ipaTokenHOTPcounter'') \<mapsto> 8], faults = []\<rparr> :: directory"
  have ty: "type example_hotp_token = OTPTOKEN_HOTP"
    by (simp add: example_hotp_token_def)
  have n: "(- 1 :: ssize_t) <s 0" by simp
  have w: "unat (hotp_counter example_hotp_token) + nat (sint (2 :: ssize_t)) + 2 < 2 ^ 64"
    "unat (hotp_counter example_hotp_token) + nat (sint (2 :: ssize_t)) + 2 < 2 ^ 31"
    by (simp_all add: example_hotp_token_def)
  have a: "validate example_hotp empty_directory example_hotp_token 0 (- 1) 300004 None =
     (False, example_hotp_token, empty_directory)"
    using hotp_never_backwards [OF ty, of "- 1" empty_directory 0 300004 None] n by blast
  have b: "hotp_counter example_hotp_token < hotp_counter (example_hotp_token\<lparr>hotp_counter := 8\<rparr>)
     \<and> sint (ucast (hotp_counter (example_hotp_token\<lparr>hotp_counter := 8\<rparr>)) :: c_int)
        = uint (hotp_counter (example_hotp_token\<lparr>hotp_counter := 8\<rparr>))"
    using hotp_never_backwards [OF ty, of 2 empty_directory 0 300007 None example_hotp
        "example_hotp_token\<lparr>hotp_counter := 8\<rparr>"
        "\<lparr>entries = [(''cn=h'', ''ipaTokenHOTPcounter'') \<mapsto> 8], faults = []\<rparr>"]
      example_hotp_validate w
    by blast
  have v5: "validate example_hotp ?d5 example_hotp_token 0 2 300007 None =
              (True, example_hotp_token\<lparr>hotp_counter := 8\<rparr>, ?d8)"
    using example_hotp_validate_stored [of 5 2] by (simp add: word_sle_eq)
  have e: "entries ?d5 (sdn example_hotp_token, ''ipaTokenHOTPcounter'') = Some 5"
    "sint (5 :: c_int) = uint (hotp_counter example_hotp_token)"
    by (simp_all add: example_hotp_token_def)
  have c: "\<exists>v'. entries ?d8 (sdn example_hotp_token, ''ipaTokenHOTPcounter'') = Some v'
            \<and> sint (5 :: c_int) < sint v'"
    using hotp_never_backwards [OF ty, of 2 ?d5 0 300007 None example_hotp
        "example_hotp_token\<lparr>hotp_counter := 8\<rparr>" ?d8] v5 w e
    by blast
  show ?thesis
    using a b c example_hotp_validate by simp
qed

text \<open>The claim as the specification states it fails in three ways. The entry with stored
  counter \<open>-1\<close> builds a token with counter \<open>2 ^ 64 - 1\<close>; offset 1 is accepted at step 0,
  below the counter, and the counter becomes 1. With counter \<open>2 ^ 31 - 1\<close> the accepted
  offset 0 stores \<open>- 2 ^ 31\<close>. And a token read at counter 5, validated after the directory
  has moved to 8, stores 6.\<close>

lemma example_wrapped_entry:
  "otptoken_new (example_entry\<lparr>ipaTokenHOTPcounter := - 1\<rparr>) =
     Some (example_hotp_token\<lparr>hotp_counter := - 1\<rparr>)"
  by code_simp

lemma example_wrapped_validate:
  "validate example_hotp empty_directory (example_hotp_token\<lparr>hotp_counter := - 1\<rparr>) 0 1 300000
       None =
     (True, example_hotp_token\<lparr>hotp_counter := 1\<rparr>,
      \<lparr>entries = [(''cn=h'', ''ipaTokenHOTPcounter'') \<mapsto> 1], faults = []\<rparr>)"
  by (simp add: validate_single_eq guard_def baseline_def example_hotp_def
        example_hotp_token_def word_sle_eq accepted_def empty_directory_def set_cursor_def
        cursor_attr_def stored_def)

lemma example_int_max_validate:
  "validate example_hotp
       \<lparr>entries = [(''cn=h'', ''ipaTokenHOTPcounter'') \<mapsto> 2147483647], faults = []\<rparr>
       (example_hotp_token\<lparr>hotp_counter := 2147483647\<rparr>) 0 0 2147783647 None =
     (True, example_hotp_token\<lparr>hotp_counter := 2147483648\<rparr>,
      \<lparr>entries = [(''cn=h'', ''ipaTokenHOTPcounter'') \<mapsto> 2147483648], faults = []\<rparr>)"
  by (simp add: validate_single_eq guard_def baseline_def example_hotp_def
        example_hotp_token_def word_sle_eq accepted_def set_cursor_def
        cursor_attr_def stored_def)

theorem hotp_counter_backwards_counterexample:
  "otptoken_new (example_entry\<lparr>ipaTokenHOTPcounter := - 1\<rparr>) =
     Some (example_hotp_token\<lparr>hotp_counter := - 1\<rparr>)
   \<and> validate example_hotp empty_directory (example_hotp_token\<lparr>hotp_counter := - 1\<rparr>) 0 1
        300000 None =
      (True, example_hotp_token\<lparr>hotp_counter := 1\<rparr>,
       \<lparr>entries = [(''cn=h'', ''ipaTokenHOTPcounter'') \<mapsto> 1], faults = []\<rparr>)
   \<and> (- 1 :: uint64_t) + 1 < - 1 \<and> (1 :: uint64_t) < - 1
   \<and> validate example_hotp
        \<lparr>entries = [(''cn=h'', ''ipaTokenHOTPcounter'') \<mapsto> 2147483647], faults = []\<rparr>
        (example_hotp_token\<lparr>hotp_counter := 2147483647\<rparr>) 0 0 2147783647 None =
      (True, example_hotp_token\<lparr>hotp_counter := 2147483648\<rparr>,
       \<lparr>entries = [(''cn=h'', ''ipaTokenHOTPcounter'') \<mapsto> 2147483648], faults = []\<rparr>)
   \<and> sint (2147483648 :: c_int) < sint (2147483647 :: c_int)
   \<and> validate example_hotp
        \<lparr>entries = [(''cn=h'', ''ipaTokenHOTPcounter'') \<mapsto> 8], faults = []\<rparr>
        example_hotp_token 0 0 300005 None =
      (True, example_hotp_token\<lparr>hotp_counter := 6\<rparr>,
       \<lparr>entries = [(''cn=h'', ''ipaTokenHOTPcounter'') \<mapsto> 6], faults = []\<rparr>)
   \<and> sint (6 :: c_int) < sint (8 :: c_int)"
proof -
  have w: "(- 1 :: uint64_t) + 1 < - 1" "(1 :: uint64_t) < - 1"
    by code_simp+
  have i: "sint (2147483648 :: c_int) < sint (2147483647 :: c_int)"
    "sint (6 :: c_int) < sint (8 :: c_int)"
    by simp_all
  have s: "validate example_hotp
        \<lparr>entries = [(''cn=h'', ''ipaTokenHOTPcounter'') \<mapsto> 8], faults = []\<rparr>
        example_hotp_token 0 0 300005 None =
      (True, example_hotp_token\<lparr>hotp_counter := 6\<rparr>,
       \<lparr>entries = [(''cn=h'', ''ipaTokenHOTPcounter'') \<mapsto> 6], faults = []\<rparr>)"
    using example_hotp_validate_stored [of 8 0] by simp
  show ?thesis
    using example_wrapped_entry example_wrapped_validate example_int_max_validate w i s
    by blast
qed













lemma candidate_offsets_0: "candidate_offsets 0 = [0, 0]"
  by (simp add: candidate_offsets_def)

text \<open>
  Claim C4, as the code has it. Take a TOTP or HOTP token whose baseline step \<open>B\<close> passes
  the guard (for TOTP: the watermark is 0 or at most \<open>B\<close>), a code generated at \<open>B\<close>, and a
  server that accepts the write. Single-code validation with radius 0 succeeds, the
  cursor is \<open>B + 1\<close> in memory and is written (as a C \<^verbatim>\<open>int\<close>) to the directory. Presenting
  the same code again to the updated token at the same instant fails, whatever the
  directory: for TOTP because \<open>B\<close> is now below the watermark (\<open>B + 1\<close> not having wrapped
  to 0), for HOTP as long as the generator gives another code at step \<open>B + 1\<close>.
\<close>

theorem baseline_code_round_trip:
  assumes ty: "type tok = OTPTOKEN_TOTP \<or> type tok = OTPTOKEN_HOTP"
    and now: "now = (if type tok = OTPTOKEN_TOTP then clock else 0)"
    and clk: "\<not> (type tok = OTPTOKEN_TOTP \<and> clock = - 1)"
    and B: "B = baseline tok now"
    and g: "type tok = OTPTOKEN_TOTP \<longrightarrow> totp_watermark tok = 0 \<or> totp_watermark tok \<le> B"
    and c: "hotp (token tok) B = Some code"
    and a: "accepted d"
  shows
   "otptoken_validate hotp clock d (Some tok) 0 code =
      (True, Some (set_cursor tok (B + 1)),
       stored d (sdn tok) (cursor_attr tok) (ucast (B + 1)))
    \<and> cursor (set_cursor tok (B + 1)) = B + 1
    \<and> ((type tok = OTPTOKEN_TOTP \<longrightarrow> B + 1 \<noteq> 0)
         \<and> (type tok = OTPTOKEN_HOTP \<longrightarrow> hotp (token tok) (B + 1) \<noteq> Some code) \<longrightarrow>
        (\<forall>d2. otptoken_validate hotp clock d2 (Some (set_cursor tok (B + 1))) 0 code =
                (False, Some (set_cursor tok (B + 1)), d2)))"
proof -
  let ?t = "set_cursor tok (B + 1)"
  have p: "passes hotp tok now code 0"
    using ty g c by (auto simp: passes_def guard_def B)
  have 1: "otptoken_validate hotp clock d (Some tok) 0 code =
      (True, Some ?t, stored d (sdn tok) (cursor_attr tok) (ucast (B + 1)))"
    using clk first_match_hit [OF p a, of "[0]"]
    by (auto simp: otptoken_validate_eq candidate_offsets_0 now B)
  have 2: "cursor ?t = B + 1"
    using ty by (intro cursor_set_cursor) auto
  have 3: "otptoken_validate hotp clock d2 (Some ?t) 0 code = (False, Some ?t, d2)"
    if w: "type tok = OTPTOKEN_TOTP \<longrightarrow> B + 1 \<noteq> 0"
      and h: "type tok = OTPTOKEN_HOTP \<longrightarrow> hotp (token tok) (B + 1) \<noteq> Some code"
    for d2
  proof -
    have t': "type ?t = type tok" "token ?t = token tok"
      by (cases "type tok"; simp add: set_cursor_def)+
    have "\<not> passes hotp ?t now code 0"
    proof (cases "type tok = OTPTOKEN_TOTP")
      case True
      then have b': "baseline ?t now = B" and w': "totp_watermark ?t = B + 1"
        by (simp_all add: baseline_def set_cursor_def B)
      have "B + 1 \<noteq> 0" using w True by simp
      then have "B < B + 1"
        by (metis add.commute add.right_inverse inc_less_eq_self_iff_eq
              verit_comp_simplify1(3))
      then show ?thesis
        using True w by (simp add: passes_def guard_def t' b' w' not_le)
    next
      case False
      then have hh: "type tok = OTPTOKEN_HOTP" using ty by simp
      then have "baseline ?t now = B + 1"
        by (simp add: baseline_def set_cursor_def)
      then show ?thesis
        using hh h by (simp add: passes_def t')
    qed
    then have "\<not> list_ex (passes hotp ?t (if type ?t = OTPTOKEN_TOTP then clock else 0) code)
                 (candidate_offsets 0)"
      by (simp add: candidate_offsets_0 t' now)
    then show ?thesis by (rule otptoken_validate_none)
  qed
  show ?thesis using 1 2 3 by blast
qed


text \<open>The HOTP token with counter 5 and the code of step 5.\<close>

theorem baseline_code_round_trip_witness:
  "otptoken_validate example_hotp 0 empty_directory (Some example_hotp_token) 0 300005 =
     (True, Some (example_hotp_token\<lparr>hotp_counter := 6\<rparr>),
      \<lparr>entries = [(''cn=h'', ''ipaTokenHOTPcounter'') \<mapsto> 6], faults = []\<rparr>)
   \<and> otptoken_validate example_hotp 0
       \<lparr>entries = [(''cn=h'', ''ipaTokenHOTPcounter'') \<mapsto> 6], faults = []\<rparr>
       (Some (example_hotp_token\<lparr>hotp_counter := 6\<rparr>)) 0 300005 =
     (False, Some (example_hotp_token\<lparr>hotp_counter := 6\<rparr>),
      \<lparr>entries = [(''cn=h'', ''ipaTokenHOTPcounter'') \<mapsto> 6], faults = []\<rparr>)"
proof -
  have ty: "type example_hotp_token = OTPTOKEN_TOTP \<or> type example_hotp_token = OTPTOKEN_HOTP"
    and now: "(0 :: time_t) = (if type example_hotp_token = OTPTOKEN_TOTP then 0 else 0)"
    and clk: "\<not> (type example_hotp_token = OTPTOKEN_TOTP \<and> (0 :: time_t) = - 1)"
    and B: "(5 :: uint64_t) = baseline example_hotp_token 0"
    and g: "type example_hotp_token = OTPTOKEN_TOTP \<longrightarrow>
             totp_watermark example_hotp_token = 0 \<or> totp_watermark example_hotp_token \<le> 5"
    and c: "example_hotp (token example_hotp_token) 5 = Some 300005"
    and a: "accepted empty_directory"
    by (simp_all add: example_hotp_token_def baseline_def example_hotp_def accepted_def
          empty_directory_def)
  have r: "(type example_hotp_token = OTPTOKEN_TOTP \<longrightarrow> (5 :: uint64_t) + 1 \<noteq> 0)
         \<and> (type example_hotp_token = OTPTOKEN_HOTP \<longrightarrow>
               example_hotp (token example_hotp_token) (5 + 1) \<noteq> Some 300005)"
    by (simp add: example_hotp_token_def example_hotp_def)
  have s: "set_cursor example_hotp_token (5 + 1) = example_hotp_token\<lparr>hotp_counter := 6\<rparr>"
    "stored empty_directory (sdn example_hotp_token) (cursor_attr example_hotp_token)
       (ucast (5 + 1 :: uint64_t)) =
     \<lparr>entries = [(''cn=h'', ''ipaTokenHOTPcounter'') \<mapsto> 6], faults = []\<rparr>"
    by (simp_all add: set_cursor_def cursor_attr_def stored_def example_hotp_token_def
          empty_directory_def)
  have "otptoken_validate example_hotp 0 empty_directory (Some example_hotp_token) 0 300005 =
      (True, Some (set_cursor example_hotp_token (5 + 1)),
       stored empty_directory (sdn example_hotp_token) (cursor_attr example_hotp_token)
         (ucast (5 + 1 :: uint64_t)))
    \<and> (\<forall>d2. otptoken_validate example_hotp 0 d2
                (Some (set_cursor example_hotp_token (5 + 1))) 0 300005 =
              (False, Some (set_cursor example_hotp_token (5 + 1)), d2))"
    using baseline_code_round_trip [where tok = example_hotp_token and now = 0 and clock = 0
        and B = 5 and hotp = example_hotp and code = 300005 and d = empty_directory]
      ty now clk B g c a r
    by blast
  then show ?thesis
    unfolding s by blast
qed

text \<open>The claim as the specification states it fails for a TOTP token whose watermark is
  above the baseline: at time 3000 the baseline is 100, the watermark is 200, and the code
  generated at step 100 is not validated.\<close>

theorem baseline_code_rejected_counterexample:
  "type (example_totp_token\<lparr>totp_watermark := 200\<rparr>) = OTPTOKEN_TOTP
   \<and> example_hotp (token (example_totp_token\<lparr>totp_watermark := 200\<rparr>))
         (baseline (example_totp_token\<lparr>totp_watermark := 200\<rparr>) 3000) = Some 300100
   \<and> otptoken_validate example_hotp 3000 empty_directory
         (Some (example_totp_token\<lparr>totp_watermark := 200\<rparr>)) 0 300100 =
       (False, Some (example_totp_token\<lparr>totp_watermark := 200\<rparr>), empty_directory)"
proof -
  let ?t = "example_totp_token\<lparr>totp_watermark := 200\<rparr>"
  have ty: "type ?t = OTPTOKEN_TOTP"
    by (simp add: example_totp_token_def)
  have b: "baseline ?t 3000 = 100"
    using example_totp_baseline by (simp add: baseline_def example_totp_token_def)
  have c: "example_hotp (token ?t) (baseline ?t 3000) = Some 300100"
    unfolding b by (simp add: example_hotp_def example_totp_token_def)
  have "\<not> guard ?t 3000 0"
    by (simp add: guard_def ty b)
  then have "\<not> list_ex (passes example_hotp ?t (if type ?t = OTPTOKEN_TOTP then 3000 else 0)
                          300100) (candidate_offsets 0)"
    by (simp add: candidate_offsets_0 ty passes_def)
  then have "otptoken_validate example_hotp 3000 empty_directory (Some ?t) 0 300100 =
       (False, Some ?t, empty_directory)"
    by (rule otptoken_validate_none)
  with ty c show ?thesis by blast
qed

section \<open>Claim about the decoding of a presented code\<close>

lemma numeric_leading_zeros:
  "numeric s \<Longrightarrow> numeric (replicate k (CHR ''0'') @ s)"
  by (auto simp: numeric_def is_digit_def list_all_iff)

lemma decimal_leading_zeros:
  "decimal_value (replicate k (CHR ''0'') @ s) = decimal_value s"
proof -
  have "foldl (\<lambda>n c. 10 * n + (of_char c - 48)) 0 (replicate k (CHR ''0'')) = (0 :: nat)"
    by (induction k) simp_all
  then show ?thesis by (simp add: decimal_value_def)
qed

text \<open>
  Claim C8, as the code has it. With \<open>n\<close> the token's code length,
  \<^verbatim>\<open>otptoken_validate_berval\<close> fails on an input shorter than \<open>n\<close>; otherwise it decodes
  the last \<open>n\<close> characters when \<open>tail\<close> is set and the first \<open>n\<close> characters when it is not
  (whatever follows them is ignored), fails when that part is not a string of digits, and
  validates the number the part denotes. Leading zeros neither fail nor change the value.
\<close>

theorem validate_berval_decoding:
  "otptoken_validate_berval hotp clock d (Some tok) steps (Some bv) tail =
     (let n = int_to_size (digits (token tok)) in
      if length bv < n then (False, Some tok, d)
      else
        (let part = (if tail then drop (length bv - n) bv else take n bv) in
         if numeric part
         then otptoken_validate hotp clock d (Some tok) steps (of_nat (decimal_value part))
         else (False, Some tok, d)))
   \<and> (numeric s \<longrightarrow> bvtod (replicate k (CHR ''0'') @ s) = bvtod s)"
proof -
  have t: "take n (drop (length bv - n) bv) = drop (length bv - n) bv" if "\<not> length bv < n" for n
    using that by simp
  have 1: "otptoken_validate_berval hotp clock d (Some tok) steps (Some bv) tail =
     (let n = int_to_size (digits (token tok)) in
      if length bv < n then (False, Some tok, d)
      else
        (let part = (if tail then drop (length bv - n) bv else take n bv) in
         if numeric part
         then otptoken_validate hotp clock d (Some tok) steps (of_nat (decimal_value part))
         else (False, Some tok, d)))"
    by (simp add: otptoken_validate_berval_def Let_def bvtod_eq t)
  have 2: "bvtod (replicate k (CHR ''0'') @ s) = bvtod s" if "numeric s"
    using that by (simp add: bvtod_eq numeric_leading_zeros decimal_leading_zeros)
  show ?thesis using 1 2 by blast
qed

lemma example_digits: "int_to_size (digits (token example_hotp_token)) = 6"
  by (simp add: int_to_size_def example_hotp_token_def)

theorem validate_berval_decoding_witness:
  "otptoken_validate_berval example_single_hotp 0 empty_directory (Some example_hotp_token) 0
      (Some ''pw000007'') True =
   otptoken_validate example_single_hotp 0 empty_directory (Some example_hotp_token) 0 7
   \<and> bvtod (replicate 2 (CHR ''0'') @ ''0007'') = bvtod ''0007''"
proof -
  have n: "numeric ''0007''" "numeric ''000007''"
    by (simp_all add: numeric_def is_digit_def)
  have v: "decimal_value ''000007'' = 7"
    by (simp add: decimal_value_def)
  show ?thesis
    using validate_berval_decoding [of example_single_hotp 0 empty_directory example_hotp_token 0
        "''pw000007''" True "''0007''" 2] n
    by (simp add: example_digits Let_def v)
qed

text \<open>The claim as the specification states it fails: with \<open>tail\<close> not set, an input of
  seven digits is not rejected for a token of code length 6; its first six digits are
  validated, here with success.\<close>

lemma example_hotp_at_baseline:
  "otptoken_validate example_hotp 0 empty_directory (Some example_hotp_token) 0 300005 =
     (True, Some (example_hotp_token\<lparr>hotp_counter := 6\<rparr>),
      \<lparr>entries = [(''cn=h'', ''ipaTokenHOTPcounter'') \<mapsto> 6], faults = []\<rparr>)"
proof -
  have p: "passes example_hotp example_hotp_token 0 300005 0"
    by (simp add: passes_def guard_def baseline_def example_hotp_def example_hotp_token_def)
  have a: "accepted empty_directory"
    by (simp add: accepted_def empty_directory_def)
  have t: "type example_hotp_token \<noteq> OTPTOKEN_TOTP"
    by (simp add: example_hotp_token_def)
  show ?thesis
    using first_match_hit [OF p a, of "[0]"] t
    by (simp add: otptoken_validate_eq candidate_offsets_0)
       (simp add: set_cursor_def cursor_attr_def stored_def baseline_def example_hotp_token_def
          empty_directory_def)
qed

theorem validate_berval_long_input_counterexample:
  "int_to_size (digits (token example_hotp_token)) = 6 \<and> length ''3000059'' = 7
   \<and> otptoken_validate_berval example_hotp 0 empty_directory (Some example_hotp_token) 0
        (Some ''3000059'') False =
      (True, Some (example_hotp_token\<lparr>hotp_counter := 6\<rparr>),
       \<lparr>entries = [(''cn=h'', ''ipaTokenHOTPcounter'') \<mapsto> 6], faults = []\<rparr>)"
proof -
  have b: "bvtod ''300005'' = Some 300005"
    by (simp add: bvtod_def)
  show ?thesis
    by (simp add: otptoken_validate_berval_def example_digits b example_hotp_at_baseline)
qed

end
